theory Spec2Isabelle
  imports Complex_Main
begin

section \<open>JavaScript numbers\<close>

text \<open>
  The planner in \<^verbatim>\<open>src/strips.js\<close> computes with JavaScript numbers. They are
  modelled as exact reals extended with \<open>NaN\<close> and the two infinities, which is what
  decides the control flow of \<^verbatim>\<open>calculateStrips\<close> (the \<^verbatim>\<open>||\<close> defaults, the
  \<^verbatim>\<open>!x\<close> checks and the loop bounds). Rounding of doubles and the sign of zero are
  not modelled: a product or quotient of numbers is the exact one, it neither
  overflows nor underflows, and a division of a non-zero number by zero yields the
  infinity with the sign of the numerator. The statements below that depend on a zero
  divisor are therefore made for operands whose zero is the positive one.
\<close>

datatype jsnum = NaN | Fin real | PInf | NInf

fun js_neg :: "jsnum \<Rightarrow> jsnum" where
  "js_neg NaN = NaN"
| "js_neg (Fin x) = Fin (- x)"
| "js_neg PInf = NInf"
| "js_neg NInf = PInf"

fun js_add :: "jsnum \<Rightarrow> jsnum \<Rightarrow> jsnum" where
  "js_add (Fin x) (Fin y) = Fin (x + y)"
| "js_add (Fin x) PInf = PInf"
| "js_add (Fin x) NInf = NInf"
| "js_add PInf (Fin y) = PInf"
| "js_add NInf (Fin y) = NInf"
| "js_add PInf PInf = PInf"
| "js_add NInf NInf = NInf"
| "js_add PInf NInf = NaN"
| "js_add NInf PInf = NaN"
| "js_add NaN b = NaN"
| "js_add a NaN = NaN"

definition js_sub :: "jsnum \<Rightarrow> jsnum \<Rightarrow> jsnum" where
  "js_sub a b = js_add a (js_neg b)"

fun js_mul :: "jsnum \<Rightarrow> jsnum \<Rightarrow> jsnum" where
  "js_mul (Fin x) (Fin y) = Fin (x * y)"
| "js_mul (Fin x) PInf = (if x = 0 then NaN else if 0 < x then PInf else NInf)"
| "js_mul (Fin x) NInf = (if x = 0 then NaN else if 0 < x then NInf else PInf)"
| "js_mul PInf (Fin y) = (if y = 0 then NaN else if 0 < y then PInf else NInf)"
| "js_mul NInf (Fin y) = (if y = 0 then NaN else if 0 < y then NInf else PInf)"
| "js_mul PInf PInf = PInf"
| "js_mul NInf NInf = PInf"
| "js_mul PInf NInf = NInf"
| "js_mul NInf PInf = NInf"
| "js_mul NaN b = NaN"
| "js_mul a NaN = NaN"

fun js_div :: "jsnum \<Rightarrow> jsnum \<Rightarrow> jsnum" where
  "js_div (Fin x) (Fin y) =
     (if y = 0 then (if x = 0 then NaN else if 0 < x then PInf else NInf)
      else Fin (x / y))"
| "js_div (Fin x) PInf = Fin 0"
| "js_div (Fin x) NInf = Fin 0"
| "js_div PInf (Fin y) = (if 0 \<le> y then PInf else NInf)"
| "js_div NInf (Fin y) = (if 0 \<le> y then NInf else PInf)"
| "js_div PInf PInf = NaN"
| "js_div NInf NInf = NaN"
| "js_div PInf NInf = NaN"
| "js_div NInf PInf = NaN"
| "js_div NaN b = NaN"
| "js_div a NaN = NaN"

definition trunc :: "real \<Rightarrow> int" where
  "trunc q = (if 0 \<le> q then \<lfloor>q\<rfloor> else \<lceil>q\<rceil>)"

text \<open>The remainder \<^verbatim>\<open>a % b\<close>: it takes the sign of the dividend.\<close>

fun js_mod :: "jsnum \<Rightarrow> jsnum \<Rightarrow> jsnum" where
  "js_mod (Fin x) (Fin y) = (if y = 0 then NaN else Fin (x - y * of_int (trunc (x / y))))"
| "js_mod (Fin x) PInf = Fin x"
| "js_mod (Fin x) NInf = Fin x"
| "js_mod PInf b = NaN"
| "js_mod NInf b = NaN"
| "js_mod NaN b = NaN"
| "js_mod (Fin x) NaN = NaN"

text \<open>\<^verbatim>\<open>Math.ceil\<close> and \<^verbatim>\<open>Math.floor\<close>.\<close>

fun js_ceil :: "jsnum \<Rightarrow> jsnum" where
  "js_ceil (Fin x) = Fin (of_int \<lceil>x\<rceil>)"
| "js_ceil a = a"

fun js_floor :: "jsnum \<Rightarrow> jsnum" where
  "js_floor (Fin x) = Fin (of_int \<lfloor>x\<rfloor>)"
| "js_floor a = a"

text \<open>The comparisons \<^verbatim>\<open>a < b\<close> and \<^verbatim>\<open>a <= b\<close>: false as soon as one side is \<open>NaN\<close>.\<close>

fun js_lt :: "jsnum \<Rightarrow> jsnum \<Rightarrow> bool" where
  "js_lt (Fin x) (Fin y) = (x < y)"
| "js_lt (Fin x) PInf = True"
| "js_lt NInf (Fin y) = True"
| "js_lt NInf PInf = True"
| "js_lt a b = False"

fun js_le :: "jsnum \<Rightarrow> jsnum \<Rightarrow> bool" where
  "js_le (Fin x) (Fin y) = (x \<le> y)"
| "js_le (Fin x) PInf = True"
| "js_le NInf (Fin y) = True"
| "js_le NInf PInf = True"
| "js_le PInf PInf = True"
| "js_le NInf NInf = True"
| "js_le a b = False"

text \<open>Truthiness of a number: \<open>0\<close> and \<open>NaN\<close> are falsy. \<^verbatim>\<open>a || d\<close> on numbers.\<close>

fun js_truthy :: "jsnum \<Rightarrow> bool" where
  "js_truthy (Fin x) = (x \<noteq> 0)"
| "js_truthy NaN = False"
| "js_truthy PInf = True"
| "js_truthy NInf = True"

definition js_or :: "jsnum \<Rightarrow> jsnum \<Rightarrow> jsnum" where
  "js_or a d = (if js_truthy a then a else d)"

text \<open>
  \<^verbatim>\<open>x.toFixed(2)\<close> read back by \<^verbatim>\<open>parseFloat\<close>: the nearest multiple of \<open>1/100\<close>,
  a tie going away from zero; a number of magnitude \<open>10^21\<close> or more is printed in
  full and comes back unchanged.
\<close>

definition toFixed2 :: "real \<Rightarrow> real" where
  "toFixed2 x =
     (if 10 ^ 21 \<le> \<bar>x\<bar> then x
      else if x < 0 then - (of_int \<lfloor>(- x) * 100 + 1 / 2\<rfloor> / 100)
      else of_int \<lfloor>x * 100 + 1 / 2\<rfloor> / 100)"

section \<open>Values of option fields and \<^verbatim>\<open>parseFloat\<close>\<close>

text \<open>
  An option of the caller is absent, a number, or a string (the text of a form
  field). \<^verbatim>\<open>parseFloat\<close> converts its argument to a string and reads the longest
  prefix that is a decimal literal, after leading white space; no such prefix gives
  \<open>NaN\<close>. A number printed and read back is the number itself. A character is one
  of the 256 of Latin-1, so the white space is the space, the controls \<open>0x09\<close> to
  \<open>0x0D\<close> and the no-break space \<open>0xA0\<close>. A literal beyond the range of a double
  reads as \<open>Infinity\<close>, one of at most half the least positive double as \<open>0\<close>.
\<close>

datatype jsval = JUndefined | JNumber jsnum | JString string

definition is_ws :: "char \<Rightarrow> bool" where
  "is_ws c = (c = CHR '' '' \<or> c = CHR 0x09 \<or> c = CHR 0x0A \<or> c = CHR 0x0B
              \<or> c = CHR 0x0C \<or> c = CHR 0x0D \<or> c = CHR 0xA0)"

definition digit_of :: "char \<Rightarrow> nat option" where
  "digit_of c = map_of (zip ''0123456789'' [0, 1, 2, 3, 4, 5, 6, 7, 8, 9]) c"

definition is_digit :: "char \<Rightarrow> bool" where
  "is_digit c = (digit_of c \<noteq> None)"

fun digits_val :: "nat \<Rightarrow> string \<Rightarrow> nat" where
  "digits_val acc [] = acc"
| "digits_val acc (c # cs) =
     digits_val (10 * acc + (case digit_of c of None \<Rightarrow> 0 | Some d \<Rightarrow> d)) cs"

definition exp_digits :: "int \<Rightarrow> string \<Rightarrow> int" where
  "exp_digits sg s =
     (let ds = takeWhile is_digit s
      in if ds = [] then 0 else sg * int (digits_val 0 ds))"

definition exponent_of :: "string \<Rightarrow> int" where
  "exponent_of s =
     (case s of
        [] \<Rightarrow> 0
      | c # t \<Rightarrow>
          if c = CHR ''e'' \<or> c = CHR ''E'' then
            (case t of
               [] \<Rightarrow> 0
             | d # u \<Rightarrow>
                 if d = CHR ''+'' then exp_digits 1 u
                 else if d = CHR ''-'' then exp_digits (- 1) u
                 else exp_digits 1 t)
          else 0)"

definition in_range :: "real \<Rightarrow> jsnum" where
  "in_range x =
     (if 2 ^ 1024 - 2 ^ 970 \<le> x then PInf
      else if x * 2 ^ 1075 \<le> 1 then Fin 0
      else Fin x)"

definition parse_unsigned :: "string \<Rightarrow> jsnum" where
  "parse_unsigned s =
     (if take 8 s = ''Infinity'' then PInf
      else
        (let ip = takeWhile is_digit s;
             r1 = dropWhile is_digit s;
             dotted = (r1 \<noteq> [] \<and> hd r1 = CHR ''.'');
             fp = (if dotted then takeWhile is_digit (tl r1) else []);
             r2 = (if dotted then dropWhile is_digit (tl r1) else r1)
         in if ip = [] \<and> fp = [] then NaN
            else
              (let m = real (digits_val 0 (ip @ fp)) / 10 ^ length fp;
                   e = exponent_of r2
               in if 0 \<le> e then in_range (m * 10 ^ nat e)
                  else in_range (m / 10 ^ nat (- e)))))"

definition parse_float_str :: "string \<Rightarrow> jsnum" where
  "parse_float_str s =
     (let t = dropWhile is_ws s
      in case t of
           [] \<Rightarrow> NaN
         | c # u \<Rightarrow>
             if c = CHR ''-'' then js_neg (parse_unsigned u)
             else if c = CHR ''+'' then parse_unsigned u
             else parse_unsigned t)"

fun parseFloat :: "jsval \<Rightarrow> jsnum" where
  "parseFloat JUndefined = NaN"
| "parseFloat (JNumber n) = n"
| "parseFloat (JString s) = parse_float_str s"

section \<open>Inputs of \<^verbatim>\<open>calculateStrips\<close>\<close>

text \<open>
  The drone object may be partial: a field is a number or absent. The options
  \<^verbatim>\<open>height\<close>, \<^verbatim>\<open>frontlap\<close>, \<^verbatim>\<open>sidelap\<close> and \<^verbatim>\<open>direction\<close> go through
  \<^verbatim>\<open>parseFloat\<close>; \<^verbatim>\<open>minSegmentLength\<close> is used as it is. The survey area is a
  GeoJSON object with a \<^verbatim>\<open>type\<close> and \<^verbatim>\<open>coordinates\<close>, or is missing.
\<close>

type_synonym position = "real \<times> real"
type_synonym ring = "position list"

record geojson =
  gtype :: "string option"
  coordinates :: "ring list"

record drone =
  sensorWidth_px :: "jsnum option"
  sensorHeight_px :: "jsnum option"
  pixelSize_um :: "jsnum option"
  focalLength_mm :: "jsnum option"

record options =
  opt_height :: jsval
  opt_frontlap :: jsval
  opt_sidelap :: jsval
  opt_direction :: jsval
  opt_minSegmentLength :: "jsnum option"

text \<open>\<^verbatim>\<open>obj.field || d\<close> for a field that is a number or absent.\<close>

definition field_or :: "jsnum option \<Rightarrow> jsnum \<Rightarrow> jsnum" where
  "field_or f d = (case f of None \<Rightarrow> d | Some a \<Rightarrow> js_or a d)"

definition sensorW_px :: "drone \<Rightarrow> jsnum" where
  "sensorW_px D = field_or (sensorWidth_px D) (Fin 0)"

definition sensorH_px :: "drone \<Rightarrow> jsnum" where
  "sensorH_px D = field_or (sensorHeight_px D) (Fin 0)"

definition pixelSize_m :: "drone \<Rightarrow> jsnum" where
  "pixelSize_m D = js_mul (field_or (pixelSize_um D) (Fin 0)) (Fin (1 / 10 ^ 6))"

definition focal_m :: "drone \<Rightarrow> jsnum" where
  "focal_m D = js_mul (field_or (focalLength_mm D) (Fin 0)) (Fin (1 / 10 ^ 3))"

definition height :: "options \<Rightarrow> jsnum" where
  "height opts = js_or (parseFloat (opt_height opts)) (Fin 0)"

definition frontlap :: "options \<Rightarrow> jsnum" where
  "frontlap opts = js_or (parseFloat (opt_frontlap opts)) (Fin (7 / 10))"

definition sidelap :: "options \<Rightarrow> jsnum" where
  "sidelap opts = js_or (parseFloat (opt_sidelap opts)) (Fin (6 / 10))"

definition dir :: "options \<Rightarrow> jsnum" where
  "dir opts = js_mod (js_or (parseFloat (opt_direction opts)) (Fin 0)) (Fin 360)"

definition minSegmentLength :: "options \<Rightarrow> jsnum" where
  "minSegmentLength opts = field_or (opt_minSegmentLength opts) (Fin 1)"

definition sensorW_m :: "drone \<Rightarrow> jsnum" where
  "sensorW_m D = js_mul (sensorW_px D) (pixelSize_m D)"

definition sensorH_m :: "drone \<Rightarrow> jsnum" where
  "sensorH_m D = js_mul (sensorH_px D) (pixelSize_m D)"

definition footprintX :: "drone \<Rightarrow> options \<Rightarrow> jsnum" where
  "footprintX D opts = js_div (js_mul (height opts) (sensorW_m D)) (focal_m D)"

definition footprintY :: "drone \<Rightarrow> options \<Rightarrow> jsnum" where
  "footprintY D opts = js_div (js_mul (height opts) (sensorH_m D)) (focal_m D)"

definition stripSpacing :: "drone \<Rightarrow> options \<Rightarrow> jsnum" where
  "stripSpacing D opts = js_mul (footprintX D opts) (js_sub (Fin 1) (sidelap opts))"

definition photoSpacing :: "drone \<Rightarrow> options \<Rightarrow> jsnum" where
  "photoSpacing D opts = js_mul (footprintY D opts) (js_sub (Fin 1) (frontlap opts))"

section \<open>The geometry library\<close>

text \<open>
  \<^verbatim>\<open>calculateStrips\<close> calls the global \<^verbatim>\<open>turf\<close> for all geometry. The library is
  not part of the repository, so it is a parameter of the model: a record with one
  field for each operation the function calls, at the type it is called at. A line
  has at least one vertex (\<^verbatim>\<open>coordinates[0]\<close> and the last vertex exist);
  coordinates, distances, lengths and areas that the library returns are finite
  numbers, while the distances and angles passed to it are whatever the arithmetic of
  the caller produced. Bearings are the literals \<open>0\<close>, \<open>90\<close> and \<open>180\<close> of the source.

  The source has no \<^verbatim>\<open>try\<close>: an exception raised inside the library (as
  \<^verbatim>\<open>turf.polygon\<close> raises one for a ring that is not closed) ends the call of
  \<^verbatim>\<open>calculateStrips\<close> and is what the call throws. All that the library is given in
  the course of a call is made from the coordinates of the survey area, the direction,
  the strip spacing, the photo spacing and the minimum segment length; the field
  \<open>turf_raises\<close> tells for these which exception the library raises during the call,
  if any. The other fields give what the operations return when they return. An error
  is an \<^verbatim>\<open>Error\<close> with its message, or the \<^verbatim>\<open>TypeError\<close> of a property read from
  \<^verbatim>\<open>null\<close>, with the name of the property.
\<close>

datatype js_error = Error string | TypeError string

type_synonym poly = "ring list"
type_synonym line = "position \<times> position list"

definition line_coords :: "line \<Rightarrow> position list" where
  "line_coords l = fst l # snd l"

definition line_first :: "line \<Rightarrow> position" where
  "line_first l = fst l"

definition line_last :: "line \<Rightarrow> position" where
  "line_last l = last (fst l # snd l)"

record turf =
  turf_polygon :: "ring list \<Rightarrow> poly"
  turf_centroid :: "poly \<Rightarrow> position"
  turf_transformRotatePoly :: "poly \<Rightarrow> jsnum \<Rightarrow> position \<Rightarrow> poly"
  turf_transformRotateLine :: "line \<Rightarrow> jsnum \<Rightarrow> position \<Rightarrow> line"
  turf_transformRotatePoint :: "position \<Rightarrow> jsnum \<Rightarrow> position \<Rightarrow> position"
  turf_bbox :: "poly \<Rightarrow> real \<times> real \<times> real \<times> real"
  turf_distance :: "position \<Rightarrow> position \<Rightarrow> real"
  turf_destination :: "position \<Rightarrow> jsnum \<Rightarrow> real \<Rightarrow> position"
  turf_lineSplit :: "line \<Rightarrow> poly \<Rightarrow> line list"
  turf_midpoint :: "position \<Rightarrow> position \<Rightarrow> position"
  turf_booleanPointInPolygon :: "position \<Rightarrow> poly \<Rightarrow> bool"
  turf_length :: "line \<Rightarrow> real"
  turf_along :: "line \<Rightarrow> jsnum \<Rightarrow> position"
  turf_area :: "poly \<Rightarrow> real"
  turf_raises :: "ring list \<Rightarrow> jsnum \<Rightarrow> jsnum \<Rightarrow> jsnum \<Rightarrow> jsnum \<Rightarrow> js_error option"

section \<open>The normalised frame and the candidate strips\<close>

definition poly :: "turf \<Rightarrow> geojson \<Rightarrow> poly" where
  "poly T g = turf_polygon T (coordinates g)"

definition centroid :: "turf \<Rightarrow> geojson \<Rightarrow> position" where
  "centroid T g = turf_centroid T (poly T g)"

definition rotatedPoly :: "turf \<Rightarrow> geojson \<Rightarrow> options \<Rightarrow> poly" where
  "rotatedPoly T g opts =
     turf_transformRotatePoly T (poly T g) (js_neg (dir opts)) (centroid T g)"

definition bbox :: "turf \<Rightarrow> geojson \<Rightarrow> options \<Rightarrow> real \<times> real \<times> real \<times> real" where
  "bbox T g opts = turf_bbox T (rotatedPoly T g opts)"

definition bboxCenter :: "turf \<Rightarrow> geojson \<Rightarrow> options \<Rightarrow> position" where
  "bboxCenter T g opts =
     (case bbox T g opts of (minX, minY, maxX, maxY) \<Rightarrow>
        ((minX + maxX) / 2, (minY + maxY) / 2))"

definition leftPoint :: "turf \<Rightarrow> geojson \<Rightarrow> options \<Rightarrow> position" where
  "leftPoint T g opts =
     (case bbox T g opts of (minX, minY, maxX, maxY) \<Rightarrow> (minX, snd (bboxCenter T g opts)))"

definition rightPoint :: "turf \<Rightarrow> geojson \<Rightarrow> options \<Rightarrow> position" where
  "rightPoint T g opts =
     (case bbox T g opts of (minX, minY, maxX, maxY) \<Rightarrow> (maxX, snd (bboxCenter T g opts)))"

definition totalWidth_km :: "turf \<Rightarrow> geojson \<Rightarrow> options \<Rightarrow> real" where
  "totalWidth_km T g opts = turf_distance T (leftPoint T g opts) (rightPoint T g opts)"

definition totalWidth_m :: "turf \<Rightarrow> geojson \<Rightarrow> options \<Rightarrow> real" where
  "totalWidth_m T g opts = totalWidth_km T g opts * 1000"

text \<open>The number of candidate strips, raised to \<open>1\<close> when the comparison \<^verbatim>\<open>< 1\<close> holds.\<close>

definition numStrips :: "turf \<Rightarrow> geojson \<Rightarrow> drone \<Rightarrow> options \<Rightarrow> jsnum" where
  "numStrips T g D opts =
     (let n = js_ceil (js_div (js_add (Fin (totalWidth_m T g opts)) (stripSpacing D opts))
                              (stripSpacing D opts))
      in if js_lt n (Fin 1) then Fin 1 else n)"

definition startPoint :: "turf \<Rightarrow> geojson \<Rightarrow> drone \<Rightarrow> options \<Rightarrow> position" where
  "startPoint T g D opts =
     turf_destination T (leftPoint T g opts)
       (js_div (js_neg (stripSpacing D opts)) (Fin 1000)) 90"

text \<open>The scan line of candidate strip \<open>i\<close>: 20 km down and 20 km up from its offset point.\<close>

definition scanLine :: "turf \<Rightarrow> geojson \<Rightarrow> drone \<Rightarrow> options \<Rightarrow> nat \<Rightarrow> line" where
  "scanLine T g D opts i =
     (let offset_m = js_mul (Fin (real i)) (stripSpacing D opts);
          offsetPoint = turf_destination T (startPoint T g D opts)
                          (js_div offset_m (Fin 1000)) 90;
          topPoint = turf_destination T offsetPoint (js_div (Fin 20000) (Fin 1000)) 0;
          bottomPoint = turf_destination T offsetPoint (js_div (Fin 20000) (Fin 1000)) 180
      in (bottomPoint, [topPoint]))"

section \<open>Outputs and the state of the loops\<close>

record photoPoint =
  lat :: real
  lng :: real
  stripIndex :: nat
  pointIndex :: nat

record stripLine =
  sl_id :: string
  sl_coordinates :: "position list"

record summary =
  areaHa :: real
  sum_numStrips :: nat
  numPhotos :: nat
  totalLengthKm :: real
  estTimeMin :: int

record result =
  photoPoints :: "photoPoint list"
  stripLines :: "stripLine list"
  summaryStats :: summary

record loop_state =
  ls_photoPoints :: "photoPoint list"
  ls_stripLines :: "stripLine list"
  totalStripLengthKm :: real
  actualStripCount :: nat

text \<open>A non-negative integer printed in decimal, as a template literal prints it.\<close>

definition digit_char :: "nat \<Rightarrow> char" where
  "digit_char d = (if d < 10 then ''0123456789'' ! d else CHR ''?'')"

fun show_nat :: "nat \<Rightarrow> string" where
  "show_nat n = (if n < 10 then [digit_char n] else show_nat (n div 10) @ [digit_char (n mod 10)])"

declare show_nat.simps [simp del]

section \<open>The photo points of one segment\<close>

text \<open>
  One round of \<^verbatim>\<open>for (let s = 0; s <= stepCount; s++)\<close>: the point at distance
  \<open>s \<sqdot> photoSpacing\<close> along the segment is rotated back and kept when it lies in the
  original polygon. The state is the list of photo points and \<^verbatim>\<open>pointIndexInStrip\<close>.
\<close>

definition samplePoint ::
  "turf \<Rightarrow> geojson \<Rightarrow> drone \<Rightarrow> options \<Rightarrow> line \<Rightarrow> nat \<Rightarrow> position" where
  "samplePoint T g D opts seg s =
     (let dist_km = js_div (js_mul (Fin (real s)) (photoSpacing D opts)) (Fin 1000);
          ptOnSeg = turf_along T seg dist_km
      in turf_transformRotatePoint T ptOnSeg (dir opts) (centroid T g))"

definition sampleStep ::
  "turf \<Rightarrow> geojson \<Rightarrow> drone \<Rightarrow> options \<Rightarrow> line \<Rightarrow> nat \<Rightarrow> nat
     \<Rightarrow> photoPoint list \<times> nat \<Rightarrow> photoPoint list \<times> nat" where
  "sampleStep T g D opts seg asc s acc =
     (let ptBack = samplePoint T g D opts seg s;
          coords = ptBack
      in if turf_booleanPointInPolygon T ptBack (poly T g)
         then (fst acc @ [\<lparr>lat = snd coords, lng = fst coords, stripIndex = asc,
                            pointIndex = snd acc\<rparr>], snd acc + 1)
         else acc)"

partial_function (option) sampleLoop ::
  "turf \<Rightarrow> geojson \<Rightarrow> drone \<Rightarrow> options \<Rightarrow> line \<Rightarrow> nat \<Rightarrow> jsnum \<Rightarrow> nat
     \<Rightarrow> photoPoint list \<times> nat \<Rightarrow> (photoPoint list \<times> nat) option" where
  "sampleLoop T g D opts seg asc stepCount s acc =
     (if js_le (Fin (real s)) stepCount
      then sampleLoop T g D opts seg asc stepCount (Suc s) (sampleStep T g D opts seg asc s acc)
      else Some acc)"

section \<open>The segments of one strip and the strip loop\<close>

text \<open>
  The callback of \<^verbatim>\<open>split.features.forEach\<close>, on the loop state and the counter
  \<^verbatim>\<open>stripSegments\<close> of the current strip. The \<^verbatim>\<open>latlngs\<close> array of the source is
  computed and never read, so it is left out.
\<close>

definition segmentCallback ::
  "turf \<Rightarrow> geojson \<Rightarrow> drone \<Rightarrow> options \<Rightarrow> nat \<Rightarrow> line \<Rightarrow> loop_state \<times> nat
     \<Rightarrow> (loop_state \<times> nat) option" where
  "segmentCallback T g D opts i seg acc =
     (let st = fst acc; stripSegments = snd acc;
          segMid = turf_midpoint T (line_first seg) (line_last seg)
      in if turf_booleanPointInPolygon T segMid (rotatedPoly T g opts) then
           (let segBack = turf_transformRotateLine T seg (dir opts) (centroid T g);
                st1 = st\<lparr>ls_stripLines := ls_stripLines st @
                         [\<lparr>sl_id = show_nat i @ ''-'' @ show_nat (length (ls_stripLines st)),
                           sl_coordinates = line_coords segBack\<rparr>]\<rparr>;
                stripSegments1 = stripSegments + 1;
                segLength_km = turf_length T seg;
                segLength_m = segLength_km * 1000;
                st2 = st1\<lparr>totalStripLengthKm := totalStripLengthKm st1 + segLength_km\<rparr>
            in if js_lt (Fin segLength_m) (minSegmentLength opts) then Some (st2, stripSegments1)
               else
                 (let stepCount = js_floor (js_div (Fin segLength_m) (photoSpacing D opts))
                  in map_option (\<lambda>r. (st2\<lparr>ls_photoPoints := fst r\<rparr>, stripSegments1))
                       (sampleLoop T g D opts seg (actualStripCount st2) stepCount 0
                          (ls_photoPoints st2, 0))))
         else Some (st, stripSegments))"

fun forEach :: "('a \<Rightarrow> 's \<Rightarrow> 's option) \<Rightarrow> 'a list \<Rightarrow> 's \<Rightarrow> 's option" where
  "forEach f [] st = Some st"
| "forEach f (x # xs) st = Option.bind (f x st) (forEach f xs)"

text \<open>The body of \<^verbatim>\<open>for (let i = 0; i < numStrips; i++)\<close>.\<close>

definition stripBody ::
  "turf \<Rightarrow> geojson \<Rightarrow> drone \<Rightarrow> options \<Rightarrow> nat \<Rightarrow> loop_state \<Rightarrow> loop_state option" where
  "stripBody T g D opts i st =
     (let scan = scanLine T g D opts i;
          splitSegs = turf_lineSplit T scan (rotatedPoly T g opts)
      in map_option
           (\<lambda>r. if 0 < snd r then (fst r)\<lparr>actualStripCount := actualStripCount (fst r) + 1\<rparr>
                 else fst r)
           (forEach (segmentCallback T g D opts i) splitSegs (st, 0)))"

partial_function (option) stripLoop ::
  "turf \<Rightarrow> geojson \<Rightarrow> drone \<Rightarrow> options \<Rightarrow> jsnum \<Rightarrow> nat \<Rightarrow> loop_state \<Rightarrow> loop_state option" where
  "stripLoop T g D opts n i st =
     (if js_lt (Fin (real i)) n
      then Option.bind (stripBody T g D opts i st) (\<lambda>st'. stripLoop T g D opts n (Suc i) st')
      else Some st)"

section \<open>\<^verbatim>\<open>calculateStrips\<close>\<close>

definition initialState :: loop_state where
  "initialState = \<lparr>ls_photoPoints = [], ls_stripLines = [], totalStripLengthKm = 0,
                    actualStripCount = 0\<rparr>"

definition estFlightTimeMin :: "real \<Rightarrow> real" where
  "estFlightTimeMin len_km = (len_km / (6 / 10)) * 60"

definition summarise :: "turf \<Rightarrow> geojson \<Rightarrow> loop_state \<Rightarrow> result" where
  "summarise T g st =
     (let areaHa' = turf_area T (poly T g) / 10000
      in \<lparr>photoPoints = ls_photoPoints st,
          stripLines = ls_stripLines st,
          summaryStats =
            \<lparr>areaHa = toFixed2 areaHa',
             sum_numStrips = actualStripCount st,
             numPhotos = length (ls_photoPoints st),
             totalLengthKm = toFixed2 (totalStripLengthKm st),
             estTimeMin = \<lceil>estFlightTimeMin (totalStripLengthKm st)\<rceil>\<rparr>\<rparr>)"

definition polygonError :: js_error where
  "polygonError = Error ''polygonGeoJSON must be a GeoJSON Polygon''"

definition parameterError :: js_error where
  "parameterError = Error ''Missing sensor/pixel/focal/height parameters''"

text \<open>The exception that the library raises during a call, if any.\<close>

definition libraryError :: "turf \<Rightarrow> geojson \<Rightarrow> drone \<Rightarrow> options \<Rightarrow> js_error option" where
  "libraryError T g D opts =
     turf_raises T (coordinates g) (dir opts) (stripSpacing D opts) (photoSpacing D opts)
       (minSegmentLength opts)"

text \<open>
  The outcome of a call: \<open>None\<close> when the call does not return, \<open>Some (Inl e)\<close> when
  it throws \<open>e\<close>, \<open>Some (Inr r)\<close> when it returns \<open>r\<close>. The two checks of the source
  come before the first call of the library. \<open>calculateStrips\<close> is the function on a
  drone and options that are objects.
\<close>

definition calculateStrips ::
  "turf \<Rightarrow> geojson option \<Rightarrow> drone \<Rightarrow> options \<Rightarrow> (js_error + result) option" where
  "calculateStrips T polygonGeoJSON D opts =
     (case polygonGeoJSON of
        None \<Rightarrow> Some (Inl polygonError)
      | Some g \<Rightarrow>
          if gtype g = None \<or> gtype g = Some [] \<or> gtype g \<noteq> Some ''Polygon''
          then Some (Inl polygonError)
          else if \<not> js_truthy (sensorW_m D) \<or> \<not> js_truthy (sensorH_m D)
                  \<or> \<not> js_truthy (focal_m D) \<or> \<not> js_truthy (height opts)
          then Some (Inl parameterError)
          else (case libraryError T g D opts of
                  Some e \<Rightarrow> Some (Inl e)
                | None \<Rightarrow>
                    map_option (\<lambda>st. Inr (summarise T g st))
                      (stripLoop T g D opts (numStrips T g D opts) 0 initialState)))"

text \<open>
  The second and third argument of a call may also be left out or be \<^verbatim>\<open>null\<close>. An
  argument left out takes the default \<^verbatim>\<open>{}\<close> of the parameter list, an object without
  fields. \<^verbatim>\<open>null\<close> takes no default: after the check of the survey area the first
  read of a property of the drone (\<^verbatim>\<open>drone.sensorWidth_px\<close>), and after the drone
  the first read of an option (\<^verbatim>\<open>options.height\<close>), raises a \<^verbatim>\<open>TypeError\<close>.
\<close>

datatype 'a argument = Omitted | Null | Object 'a

definition emptyDrone :: drone where
  "emptyDrone = \<lparr>sensorWidth_px = None, sensorHeight_px = None, pixelSize_um = None,
                  focalLength_mm = None\<rparr>"

definition emptyOptions :: options where
  "emptyOptions = \<lparr>opt_height = JUndefined, opt_frontlap = JUndefined,
                    opt_sidelap = JUndefined, opt_direction = JUndefined,
                    opt_minSegmentLength = None\<rparr>"

definition objectOf :: "'a argument \<Rightarrow> 'a \<Rightarrow> 'a" where
  "objectOf a d = (case a of Object x \<Rightarrow> x | _ \<Rightarrow> d)"

definition calculateStripsCall ::
  "turf \<Rightarrow> geojson option \<Rightarrow> drone argument \<Rightarrow> options argument
     \<Rightarrow> (js_error + result) option" where
  "calculateStripsCall T polygonGeoJSON droneArg optionsArg =
     (case polygonGeoJSON of
        None \<Rightarrow> Some (Inl polygonError)
      | Some g \<Rightarrow>
          if gtype g = None \<or> gtype g = Some [] \<or> gtype g \<noteq> Some ''Polygon''
          then Some (Inl polygonError)
          else if droneArg = Null then Some (Inl (TypeError ''sensorWidth_px''))
          else if optionsArg = Null then Some (Inl (TypeError ''height''))
          else calculateStrips T polygonGeoJSON (objectOf droneArg emptyDrone)
                 (objectOf optionsArg emptyOptions))"

section \<open>Predicates on the inputs\<close>

text \<open>
  A drone field is unusable when it is absent or falsy (\<open>0\<close> or \<open>NaN\<close>): the
  \<^verbatim>\<open>|| 0\<close> of the source then yields \<open>0\<close>. The survey area passes the first check of
  \<^verbatim>\<open>calculateStrips\<close> when it is present and its type is \<^verbatim>\<open>'Polygon'\<close>. The values
  that the function reads from the options are collected in one tuple. The second
  check passes when the sensor width and height in metres, the focal length in metres
  and the height are all truthy.
\<close>

definition unusable :: "jsnum option \<Rightarrow> bool" where
  "unusable f = (case f of None \<Rightarrow> True | Some a \<Rightarrow> \<not> js_truthy a)"

definition footprintOK :: "drone \<Rightarrow> options \<Rightarrow> bool" where
  "footprintOK D opts =
     (js_truthy (sensorW_m D) \<and> js_truthy (sensorH_m D) \<and> js_truthy (focal_m D)
      \<and> js_truthy (height opts))"

definition isPolygon :: "geojson option \<Rightarrow> bool" where
  "isPolygon P = (case P of None \<Rightarrow> False | Some g \<Rightarrow> gtype g = Some ''Polygon'')"


section \<open>Accepted segments and kept samples\<close>

text \<open>
  A segment of a split scan line is accepted when its midpoint lies in the rotated
  polygon. The samples of a segment that are kept are those that, rotated back, lie
  in the original polygon; they become photo points of the current logical strip,
  numbered from the current \<^verbatim>\<open>pointIndexInStrip\<close>.
\<close>

definition accepted :: "turf \<Rightarrow> geojson \<Rightarrow> options \<Rightarrow> line \<Rightarrow> bool" where
  "accepted T g opts seg =
     turf_booleanPointInPolygon T (turf_midpoint T (line_first seg) (line_last seg))
       (rotatedPoly T g opts)"

definition acceptedSegments ::
  "turf \<Rightarrow> geojson \<Rightarrow> drone \<Rightarrow> options \<Rightarrow> nat \<Rightarrow> line list" where
  "acceptedSegments T g D opts i =
     filter (accepted T g opts)
       (turf_lineSplit T (scanLine T g D opts i) (rotatedPoly T g opts))"

definition keptSamples ::
  "turf \<Rightarrow> geojson \<Rightarrow> drone \<Rightarrow> options \<Rightarrow> line \<Rightarrow> nat list \<Rightarrow> position list" where
  "keptSamples T g D opts seg ss =
     filter (\<lambda>q. turf_booleanPointInPolygon T q (poly T g))
       (map (samplePoint T g D opts seg) ss)"

fun mkPhotos :: "nat \<Rightarrow> nat \<Rightarrow> position list \<Rightarrow> photoPoint list" where
  "mkPhotos asc n [] = []"
| "mkPhotos asc n (q # qs) =
     \<lparr>lat = snd q, lng = fst q, stripIndex = asc, pointIndex = n\<rparr> # mkPhotos asc (Suc n) qs"

definition newStripLine :: "turf \<Rightarrow> geojson \<Rightarrow> options \<Rightarrow> nat \<Rightarrow> nat \<Rightarrow> line \<Rightarrow> stripLine" where
  "newStripLine T g opts i k seg =
     \<lparr>sl_id = show_nat i @ ''-'' @ show_nat k,
      sl_coordinates = line_coords (turf_transformRotateLine T seg (dir opts) (centroid T g))\<rparr>"

text \<open>The number of rounds of the strip loop for a bound that lets it end.\<close>

definition candidateStrips :: "jsnum \<Rightarrow> nat" where
  "candidateStrips n = (case n of Fin r \<Rightarrow> nat \<lceil>r\<rceil> | _ \<Rightarrow> 0)"

section \<open>A flat stand-in for the geometry library\<close>

text \<open>
  For the concrete runs below the library is instantiated by planar geometry on a
  grid whose unit is the kilometre, exact for an axis-parallel rectangle that is
  flown northwards (direction \<open>0\<close>, where every rotation is the identity): distances
  are measured along the axes, a polygon is taken for its bounding box, and a
  vertical scan line that crosses the box is cut at the lower and upper edge. As
  \<^verbatim>\<open>turf.polygon\<close> does, it raises an error for a ring of fewer than four positions
  and for a ring whose last position is not the first.
\<close>

fun ringError :: "ring list \<Rightarrow> js_error option" where
  "ringError [] = None"
| "ringError (r # rs) =
     (if length r < 4
      then Some (Error ''Each LinearRing of a Polygon must have 4 or more Positions.'')
      else if last r = hd r then ringError rs
      else Some (Error ''First and last Position are not equivalent.''))"

definition ringBox :: "ring \<Rightarrow> real \<times> real \<times> real \<times> real" where
  "ringBox r =
     (case r of
        [] \<Rightarrow> (0, 0, 0, 0)
      | p # ps \<Rightarrow>
          (fold min (map fst ps) (fst p), fold min (map snd ps) (snd p),
           fold max (map fst ps) (fst p), fold max (map snd ps) (snd p)))"

definition inBox :: "position \<Rightarrow> real \<times> real \<times> real \<times> real \<Rightarrow> bool" where
  "inBox p b =
     (case b of (minX, minY, maxX, maxY) \<Rightarrow>
        minX \<le> fst p \<and> fst p \<le> maxX \<and> minY \<le> snd p \<and> snd p \<le> maxY)"

definition gridDistance :: "position \<Rightarrow> position \<Rightarrow> real" where
  "gridDistance p q = \<bar>fst p - fst q\<bar> + \<bar>snd p - snd q\<bar>"

definition gridDestination :: "position \<Rightarrow> jsnum \<Rightarrow> real \<Rightarrow> position" where
  "gridDestination p d bearing =
     (case d of
        Fin x \<Rightarrow>
          if bearing = 90 then (fst p + x, snd p)
          else if bearing = 0 then (fst p, snd p + x)
          else if bearing = 180 then (fst p, snd p - x)
          else p
      | _ \<Rightarrow> p)"

definition gridLineSplit :: "line \<Rightarrow> poly \<Rightarrow> line list" where
  "gridLineSplit l p =
     (case ringBox (concat p) of (minX, minY, maxX, maxY) \<Rightarrow>
        (let a = line_first l; b = line_last l
         in if fst a = fst b \<and> minX \<le> fst a \<and> fst a \<le> maxX \<and> snd a < minY \<and> maxY < snd b
            then [(a, [(fst a, minY)]), ((fst a, minY), [(fst a, maxY)]), ((fst a, maxY), [b])]
            else []))"

definition gridAlong :: "line \<Rightarrow> jsnum \<Rightarrow> position" where
  "gridAlong l d =
     (case d of
        Fin x \<Rightarrow> (fst (line_first l), min (snd (line_first l) + x) (snd (line_last l)))
      | _ \<Rightarrow> line_first l)"

definition gridTurf :: turf where
  "gridTurf =
     \<lparr>turf_polygon = (\<lambda>cs. cs),
      turf_centroid =
        (\<lambda>p. case ringBox (concat p) of (minX, minY, maxX, maxY) \<Rightarrow>
                ((minX + maxX) / 2, (minY + maxY) / 2)),
      turf_transformRotatePoly = (\<lambda>p a c. p),
      turf_transformRotateLine = (\<lambda>l a c. l),
      turf_transformRotatePoint = (\<lambda>q a c. q),
      turf_bbox = (\<lambda>p. ringBox (concat p)),
      turf_distance = gridDistance,
      turf_destination = gridDestination,
      turf_lineSplit = gridLineSplit,
      turf_midpoint = (\<lambda>p q. ((fst p + fst q) / 2, (snd p + snd q) / 2)),
      turf_booleanPointInPolygon = (\<lambda>q p. inBox q (ringBox (concat p))),
      turf_length = (\<lambda>l. gridDistance (line_first l) (line_last l)),
      turf_along = gridAlong,
      turf_area = (\<lambda>p. case ringBox (concat p) of (minX, minY, maxX, maxY) \<Rightarrow>
                     (maxX - minX) * (maxY - minY) * 10 ^ 6),
      turf_raises = (\<lambda>cs d sp ps m. ringError cs)\<rparr>"

text \<open>
  The survey area of the runs: a square of 100 m by 100 m; and the same square with
  its ring left open. The camera has a sensor of 1000 by 1000 pixels of 10 micrometres
  and a focal length of 10 mm, so that at a height of 100 m the footprint is 100 m by
  100 m.
\<close>

definition square :: geojson where
  "square = \<lparr>gtype = Some ''Polygon'',
             coordinates = [[(0, 0), (1 / 10, 0), (1 / 10, 1 / 10), (0, 1 / 10), (0, 0)]]\<rparr>"

definition openSquare :: geojson where
  "openSquare = \<lparr>gtype = Some ''Polygon'',
                 coordinates = [[(0, 0), (1 / 10, 0), (1 / 10, 1 / 10), (0, 1 / 10)]]\<rparr>"

definition camera :: drone where
  "camera = \<lparr>sensorWidth_px = Some (Fin 1000), sensorHeight_px = Some (Fin 1000),
             pixelSize_um = Some (Fin 10), focalLength_mm = Some (Fin 10)\<rparr>"

definition flight :: options where
  "flight = \<lparr>opt_height = JNumber (Fin 100), opt_frontlap = JNumber (Fin (1 / 2)),
             opt_sidelap = JNumber (Fin (1 / 2)), opt_direction = JNumber (Fin 0),
             opt_minSegmentLength = None\<rparr>"

text \<open>
  What holds of every photo point and of every strip line of a result: a photo point
  is a sample of an accepted segment, rotated back, that lies in the original
  polygon; the strip line at position \<open>j\<close> of the output was made from an accepted
  segment of a candidate strip \<open>i\<close> below \<open>m\<close>, with \<open>j\<close> as the second part of its id.
\<close>

definition photoOK :: "turf \<Rightarrow> geojson \<Rightarrow> drone \<Rightarrow> options \<Rightarrow> photoPoint \<Rightarrow> bool" where
  "photoOK T g D opts p =
     (turf_booleanPointInPolygon T (lng p, lat p) (poly T g)
      \<and> (\<exists>i seg s. seg \<in> set (acceptedSegments T g D opts i)
             \<and> (lng p, lat p) = samplePoint T g D opts seg s))"

definition lineOK ::
  "turf \<Rightarrow> geojson \<Rightarrow> drone \<Rightarrow> options \<Rightarrow> nat \<Rightarrow> stripLine list \<Rightarrow> nat \<Rightarrow> bool" where
  "lineOK T g D opts m sls j =
     (\<exists>i seg. i < m \<and> seg \<in> set (acceptedSegments T g D opts i)
        \<and> sls ! j = newStripLine T g opts i j seg)"

text \<open>The result of the run on the square.\<close>

definition squareResult :: result where
  "squareResult =
     \<lparr>photoPoints =
        [\<lparr>lat = 0, lng = 0, stripIndex = 0, pointIndex = 0\<rparr>,
         \<lparr>lat = 1 / 20, lng = 0, stripIndex = 0, pointIndex = 1\<rparr>,
         \<lparr>lat = 1 / 10, lng = 0, stripIndex = 0, pointIndex = 2\<rparr>,
         \<lparr>lat = 0, lng = 1 / 20, stripIndex = 1, pointIndex = 0\<rparr>,
         \<lparr>lat = 1 / 20, lng = 1 / 20, stripIndex = 1, pointIndex = 1\<rparr>,
         \<lparr>lat = 1 / 10, lng = 1 / 20, stripIndex = 1, pointIndex = 2\<rparr>],
      stripLines =
        [\<lparr>sl_id = ''1-0'', sl_coordinates = [(0, 0), (0, 1 / 10)]\<rparr>,
         \<lparr>sl_id = ''2-1'', sl_coordinates = [(1 / 20, 0), (1 / 20, 1 / 10)]\<rparr>],
      summaryStats =
        \<lparr>areaHa = 1, sum_numStrips = 2, numPhotos = 6, totalLengthKm = 1 / 5,
         estTimeMin = 20\<rparr>\<rparr>"



section \<open>Outcomes\<close>

text \<open>A call returns when its outcome is a result.\<close>

definition returns :: "(js_error + result) option \<Rightarrow> bool" where
  "returns x = (case x of Some (Inr r) \<Rightarrow> True | _ \<Rightarrow> False)"

text \<open>
  Variants of the flight over the square: a side overlap of \<open>1\<close>, of \<open>0.99999\<close> and
  of \<open>1.5\<close>.
\<close>

definition fullSidelap :: options where
  "fullSidelap = flight\<lparr>opt_sidelap := JNumber (Fin 1)\<rparr>"

definition denseSidelap :: options where
  "denseSidelap = flight\<lparr>opt_sidelap := JNumber (Fin (99999 / 100000))\<rparr>"

definition excessSidelap :: options where
  "excessSidelap = flight\<lparr>opt_sidelap := JNumber (Fin (3 / 2))\<rparr>"

lemma parseFloat_examples:
  "parseFloat (JString ''100'') = Fin 100"
  "parseFloat (JString '' -2.5e1px'') = Fin (- 25)"
  "parseFloat (JString ''.5'') = Fin (1 / 2)"
  "parseFloat (JString ''north'') = NaN"
  "parseFloat (JString '''') = NaN"
  "parseFloat (JString ''Infinity'') = PInf"
  "parseFloat (JString ''0.70'') = Fin (7 / 10)"
  "parseFloat (JString ''1e400'') = PInf"
  "parseFloat (JString ''1e-400'') = Fin 0"
  by (simp_all add: parse_float_str_def parse_unsigned_def exponent_of_def exp_digits_def
      is_digit_def digit_of_def is_ws_def in_range_def)


section \<open>The loops as folds\<close>

text \<open>
  A loop whose bound is a finite number runs once for every index below the bound;
  with the bound \<open>Infinity\<close> it never ends.
\<close>

lemma sampleLoop_fin:
  "sampleLoop T g D opts seg asc (Fin k) s acc =
     Some (fold (sampleStep T g D opts seg asc) [s..<nat (\<lfloor>k\<rfloor> + 1)] acc)"
proof (induction "nat (\<lfloor>k\<rfloor> + 1) - s" arbitrary: s acc)
  case 0
  then have "\<not> real s \<le> k" by linarith
  then show ?case using 0 by (subst sampleLoop.simps) simp
next
  case (Suc m)
  then have lt: "s < nat (\<lfloor>k\<rfloor> + 1)" by linarith
  then have le: "real s \<le> k" by linarith
  have "m = nat (\<lfloor>k\<rfloor> + 1) - Suc s" using Suc.hyps(2) by linarith
  from Suc.hyps(1)[OF this] le lt show ?case
    by (subst sampleLoop.simps) (simp add: upt_conv_Cons)
qed

lemma sampleLoop_Some_not_PInf:
  assumes "sampleLoop T g D opts seg asc sc s acc = Some r"
  shows "sc \<noteq> PInf"
  by (rule sampleLoop.raw_induct
        [where P = "\<lambda>T g D opts seg asc sc s acc r. sc \<noteq> PInf", OF _ assms])
     (auto split: if_splits)

lemma sampleLoop_PInf: "sampleLoop T g D opts seg asc PInf s acc = None"
  using sampleLoop_Some_not_PInf [of T g D opts seg asc PInf s acc]
  by (cases "sampleLoop T g D opts seg asc PInf s acc") auto

lemma stripLoop_Some_not_PInf:
  assumes "stripLoop T g D opts n i st = Some r"
  shows "n \<noteq> PInf"
  by (rule stripLoop.raw_induct
        [where P = "\<lambda>T g D opts n i st r. n \<noteq> PInf", OF _ assms])
     (fastforce split: if_splits simp: bind_eq_Some_conv)

lemma stripLoop_PInf: "stripLoop T g D opts PInf i st = None"
  using stripLoop_Some_not_PInf [of T g D opts PInf i st]
  by (cases "stripLoop T g D opts PInf i st") auto

lemma stripLoop_fin:
  "stripLoop T g D opts (Fin r) i st = forEach (stripBody T g D opts) [i..<nat \<lceil>r\<rceil>] st"
proof (induction "nat \<lceil>r\<rceil> - i" arbitrary: i st)
  case 0
  then have "\<not> real i < r" by linarith
  then show ?case using 0 by (subst stripLoop.simps) simp
next
  case (Suc m)
  then have lt: "i < nat \<lceil>r\<rceil>" by linarith
  then have le: "real i < r" by linarith
  have "m = nat \<lceil>r\<rceil> - Suc i" using Suc.hyps(2) by linarith
  from Suc.hyps(1)[OF this] le lt show ?case
    by (subst stripLoop.simps) (simp add: upt_conv_Cons cong: Option.bind_cong)
qed

lemma sampleLoop_cases:
  "sampleLoop T g D opts seg asc sc s acc =
     (case sc of
        Fin k \<Rightarrow> Some (fold (sampleStep T g D opts seg asc) [s..<nat (\<lfloor>k\<rfloor> + 1)] acc)
      | PInf \<Rightarrow> None
      | _ \<Rightarrow> Some acc)"
proof (cases sc)
  case NaN
  then show ?thesis by (subst sampleLoop.simps) simp
next
  case (Fin k)
  then show ?thesis by (simp add: sampleLoop_fin)
next
  case PInf
  then show ?thesis by (simp add: sampleLoop_PInf)
next
  case NInf
  then show ?thesis by (subst sampleLoop.simps) simp
qed

lemma stripLoop_cases:
  "stripLoop T g D opts n i st =
     (case n of
        Fin r \<Rightarrow> forEach (stripBody T g D opts) [i..<nat \<lceil>r\<rceil>] st
      | PInf \<Rightarrow> None
      | _ \<Rightarrow> Some st)"
proof (cases n)
  case NaN
  then show ?thesis by (subst stripLoop.simps) simp
next
  case (Fin k)
  then show ?thesis by (simp add: stripLoop_fin)
next
  case PInf
  then show ?thesis by (simp add: stripLoop_PInf)
next
  case NInf
  then show ?thesis by (subst stripLoop.simps) simp
qed

section \<open>The run on the square\<close>

lemmas camera_defs = sensorW_px_def sensorH_px_def pixelSize_m_def focal_m_def sensorW_m_def
  sensorH_m_def field_or_def js_or_def
lemmas option_defs = height_def frontlap_def sidelap_def dir_def minSegmentLength_def
  js_sub_def trunc_def
lemma gridTurf_simps:
  "turf_polygon gridTurf cs = cs"
  "turf_centroid gridTurf p =
     (case ringBox (concat p) of (minX, minY, maxX, maxY) \<Rightarrow>
        ((minX + maxX) / 2, (minY + maxY) / 2))"
  "turf_transformRotatePoly gridTurf p a c = p"
  "turf_transformRotateLine gridTurf l a c = l"
  "turf_transformRotatePoint gridTurf q a c = q"
  "turf_bbox gridTurf p = ringBox (concat p)"
  "turf_distance gridTurf = gridDistance"
  "turf_destination gridTurf = gridDestination"
  "turf_lineSplit gridTurf = gridLineSplit"
  "turf_midpoint gridTurf q q' = ((fst q + fst q') / 2, (snd q + snd q') / 2)"
  "turf_booleanPointInPolygon gridTurf q p = inBox q (ringBox (concat p))"
  "turf_length gridTurf l = gridDistance (line_first l) (line_last l)"
  "turf_along gridTurf = gridAlong"
  "turf_area gridTurf p =
     (case ringBox (concat p) of (minX, minY, maxX, maxY) \<Rightarrow>
        (maxX - minX) * (maxY - minY) * 10 ^ 6)"
  "turf_raises gridTurf cs d sp ps m = ringError cs"
  by (simp_all add: gridTurf_def)

lemmas grid_defs = gridTurf_simps inBox_def gridDistance_def gridDestination_def
  gridLineSplit_def gridAlong_def line_first_def line_last_def line_coords_def

lemma flight_values:
  "stripSpacing camera flight = Fin 50"
  "photoSpacing camera flight = Fin 50"
  "dir flight = Fin 0"
  "minSegmentLength flight = Fin 1"
  by (simp_all add: stripSpacing_def photoSpacing_def footprintX_def footprintY_def
      camera_defs option_defs camera_def flight_def)

lemma square_box: "ringBox (concat (coordinates square)) = (0, 0, 1 / 10, 1 / 10)"
  by (simp add: ringBox_def square_def)

lemma square_frame:
  "poly gridTurf square = coordinates square"
  "rotatedPoly gridTurf square flight = coordinates square"
  "centroid gridTurf square = (1 / 20, 1/ 20)"
  "bbox gridTurf square flight = (0, 0, 1 / 10, 1 / 10)"
  by (simp_all add: poly_def rotatedPoly_def centroid_def bbox_def gridTurf_simps square_box)

lemma square_strips:
  "numStrips gridTurf square camera flight = Fin 3"
  "startPoint gridTurf square camera flight = (- 1 / 20, 1 / 20)"
  by (simp_all add: numStrips_def startPoint_def totalWidth_m_def totalWidth_km_def
      leftPoint_def rightPoint_def bboxCenter_def square_frame flight_values grid_defs)

lemma square_scan:
  "scanLine gridTurf square camera flight i =
     ((real i / 20 - 1 / 20, - 399 / 20), [(real i / 20 - 1 / 20, 401 / 20)])"
  by (simp add: scanLine_def square_strips flight_values grid_defs)

lemma show_nat_small:
  "show_nat 0 = ''0''" "show_nat 1 = ''1''" "show_nat (Suc 0) = ''1''" "show_nat 2 = ''2''"
  by (simp_all add: digit_char_def show_nat.simps)

lemma upt3: "[0..<3] = [0, 1, 2]"
  by (simp add: upt_rec)

lemma square_samples:
  "0 \<le> x \<Longrightarrow> x \<le> 1 / 10 \<Longrightarrow>
   sampleLoop gridTurf square camera flight ((x, 0), [(x, 1 / 10)]) asc (Fin 2) 0 (pts, 0) =
     Some (pts @ [\<lparr>lat = 0, lng = x, stripIndex = asc, pointIndex = 0\<rparr>,
                  \<lparr>lat = 1 / 20, lng = x, stripIndex = asc, pointIndex = 1\<rparr>,
                  \<lparr>lat = 1 / 10, lng = x, stripIndex = asc, pointIndex = 2\<rparr>], 3)"
  by (simp add: sampleLoop_fin upt3 sampleStep_def samplePoint_def Let_def
        square_frame square_box flight_values grid_defs)

lemma square_seg_in:
  "0 \<le> x \<Longrightarrow> x \<le> 1 / 10 \<Longrightarrow>
   segmentCallback gridTurf square camera flight i ((x, 0), [(x, 1 / 10)]) (st, k) =
     Some (st\<lparr>ls_stripLines := ls_stripLines st @
                [\<lparr>sl_id = show_nat i @ ''-'' @ show_nat (length (ls_stripLines st)),
                  sl_coordinates = [(x, 0), (x, 1 / 10)]\<rparr>],
              totalStripLengthKm := totalStripLengthKm st + 1 / 10,
              ls_photoPoints := ls_photoPoints st @
                [\<lparr>lat = 0, lng = x, stripIndex = actualStripCount st, pointIndex = 0\<rparr>,
                 \<lparr>lat = 1 / 20, lng = x, stripIndex = actualStripCount st, pointIndex = 1\<rparr>,
                 \<lparr>lat = 1 / 10, lng = x, stripIndex = actualStripCount st, pointIndex = 2\<rparr>]\<rparr>,
           k + 1)"
  by (simp add: segmentCallback_def square_samples Let_def
        square_frame square_box flight_values grid_defs)

lemma square_seg_out:
  "(y + y') / 2 < 0 \<or> 1 / 10 < (y + y') / 2 \<Longrightarrow>
   segmentCallback gridTurf square camera flight i ((x, y), [(x, y')]) (st, k) = Some (st, k)"
  by (auto simp add: segmentCallback_def Let_def
        square_frame square_box flight_values grid_defs)

lemma square_split:
  "turf_lineSplit gridTurf (scanLine gridTurf square camera flight i)
     (rotatedPoly gridTurf square flight) =
   (if 1 \<le> i \<and> i \<le> 3
    then [((real i / 20 - 1 / 20, - 399 / 20), [(real i / 20 - 1 / 20, 0)]),
          ((real i / 20 - 1 / 20, 0), [(real i / 20 - 1 / 20, 1 / 10)]),
          ((real i / 20 - 1 / 20, 1 / 10), [(real i / 20 - 1 / 20, 401 / 20)])]
    else [])"
  by (auto simp add: square_scan square_frame square_box grid_defs)

lemma square_body_0:
  "stripBody gridTurf square camera flight 0 st = Some st"
  by (simp add: stripBody_def square_split)

lemma square_body_in:
  "1 \<le> i \<Longrightarrow> i \<le> 3 \<Longrightarrow>
   stripBody gridTurf square camera flight i st =
     Some (st\<lparr>ls_stripLines := ls_stripLines st @
                [\<lparr>sl_id = show_nat i @ ''-'' @ show_nat (length (ls_stripLines st)),
                  sl_coordinates = [(real i / 20 - 1 / 20, 0), (real i / 20 - 1 / 20, 1 / 10)]\<rparr>],
              totalStripLengthKm := totalStripLengthKm st + 1 / 10,
              ls_photoPoints := ls_photoPoints st @
                [\<lparr>lat = 0, lng = real i / 20 - 1 / 20, stripIndex = actualStripCount st,
                  pointIndex = 0\<rparr>,
                 \<lparr>lat = 1 / 20, lng = real i / 20 - 1 / 20, stripIndex = actualStripCount st,
                  pointIndex = 1\<rparr>,
                 \<lparr>lat = 1 / 10, lng = real i / 20 - 1 / 20, stripIndex = actualStripCount st,
                  pointIndex = 2\<rparr>],
              actualStripCount := actualStripCount st + 1\<rparr>)"
  by (simp add: stripBody_def square_split square_seg_in square_seg_out)

lemma camera_ok:
  "js_truthy (sensorW_m camera)" "js_truthy (sensorH_m camera)" "js_truthy (focal_m camera)"
  "js_truthy (height flight)"
  by (simp_all add: camera_defs camera_def height_def flight_def)

lemma square_type: "gtype square = Some ''Polygon''"
  by (simp add: square_def)

lemma square_no_exception: "libraryError gridTurf square D opts = None"
  by (simp add: libraryError_def gridTurf_simps square_def)

lemma square_run:
  "calculateStrips gridTurf (Some square) camera flight = Some (Inr squareResult)"
  by (simp add: calculateStrips_def camera_ok square_strips stripLoop_fin upt3
        square_body_0 square_body_in initialState_def summarise_def squareResult_def
        show_nat_small square_type toFixed2_def estFlightTimeMin_def square_frame square_box
        gridTurf_simps square_no_exception)

lemma square_candidates: "candidateStrips (numStrips gridTurf square camera flight) = 3"
  by (simp add: square_strips candidateStrips_def)

lemma square_accepted:
  "acceptedSegments gridTurf square camera flight i =
     (if 1 \<le> i \<and> i \<le> 3 then [((real i / 20 - 1 / 20, 0), [(real i / 20 - 1 / 20, 1 / 10)])]
      else [])"
  unfolding acceptedSegments_def square_split
  by (simp add: accepted_def square_frame square_box gridTurf_simps inBox_def
      line_first_def line_last_def)




section \<open>The checks on the inputs\<close>

lemma field_or_zero: "unusable f \<Longrightarrow> field_or f (Fin 0) = Fin 0"
  by (cases f) (auto simp: field_or_def js_or_def unusable_def)

lemma js_mul_zero: "\<not> js_truthy (js_mul (Fin 0) b)" "\<not> js_truthy (js_mul a (Fin 0))"
  by (cases b; simp) (cases a; simp)

lemma height_truthy: "js_truthy (height opts) \<longleftrightarrow> js_truthy (parseFloat (opt_height opts))"
  by (simp add: height_def js_or_def)

lemma unusable_footprint:
  assumes "unusable (sensorWidth_px D) \<or> unusable (sensorHeight_px D)
      \<or> unusable (pixelSize_um D) \<or> unusable (focalLength_mm D)
      \<or> \<not> js_truthy (parseFloat (opt_height opts))"
  shows "\<not> footprintOK D opts"
proof -
  have w: "\<not> js_truthy (sensorW_m D)" if "unusable (sensorWidth_px D)"
    using that by (simp add: sensorW_m_def sensorW_px_def field_or_zero js_mul_zero)
  have h: "\<not> js_truthy (sensorH_m D)" if "unusable (sensorHeight_px D)"
    using that by (simp add: sensorH_m_def sensorH_px_def field_or_zero js_mul_zero)
  have p: "\<not> js_truthy (sensorW_m D)" if "unusable (pixelSize_um D)"
    using that by (simp add: sensorW_m_def pixelSize_m_def field_or_zero js_mul_zero)
  have f: "\<not> js_truthy (focal_m D)" if "unusable (focalLength_mm D)"
    using that by (simp add: focal_m_def field_or_zero)
  from assms w h p f show ?thesis
    by (auto simp: footprintOK_def height_truthy)
qed

lemma errors_differ: "polygonError \<noteq> parameterError"
  by (simp add: polygonError_def parameterError_def)

lemma calculateStrips_checked:
  assumes "isPolygon (Some g)" and "footprintOK D opts"
  shows "calculateStrips T (Some g) D opts =
     (case libraryError T g D opts of
        Some e \<Rightarrow> Some (Inl e)
      | None \<Rightarrow>
          map_option (\<lambda>st. Inr (summarise T g st))
            (stripLoop T g D opts (numStrips T g D opts) 0 initialState))"
  using assms by (simp add: calculateStrips_def isPolygon_def footprintOK_def)

lemma calculateStrips_error:
  "calculateStrips T P D opts = Some (Inl e) \<longleftrightarrow>
     (\<not> isPolygon P \<and> e = polygonError)
     \<or> (isPolygon P \<and> \<not> footprintOK D opts \<and> e = parameterError)
     \<or> (isPolygon P \<and> footprintOK D opts
         \<and> (\<exists>g. P = Some g \<and> libraryError T g D opts = Some e))"
proof (cases P)
  case None
  then show ?thesis by (auto simp: calculateStrips_def isPolygon_def)
next
  case (Some g)
  show ?thesis
  proof (cases "isPolygon P")
    case False
    then show ?thesis using Some by (auto simp: calculateStrips_def isPolygon_def)
  next
    case True
    show ?thesis
    proof (cases "footprintOK D opts")
      case False
      then show ?thesis
        using Some True by (auto simp: calculateStrips_def isPolygon_def footprintOK_def)
    next
      case ok: True
      from True Some have "isPolygon (Some g)" by simp
      from calculateStrips_checked [OF this ok] True ok Some show ?thesis
        by (auto split: option.splits)
    qed
  qed
qed

lemma calculateStripsCall_Object:
  "calculateStripsCall T P (Object D) (Object opts) = calculateStrips T P D opts"
  by (cases P) (auto simp: calculateStripsCall_def calculateStrips_def objectOf_def)

lemma calculateStripsCall_cases:
  "calculateStripsCall T P droneArg optionsArg =
     (if \<not> isPolygon P then Some (Inl polygonError)
      else if droneArg = Null then Some (Inl (TypeError ''sensorWidth_px''))
      else if optionsArg = Null then Some (Inl (TypeError ''height''))
      else calculateStrips T P (objectOf droneArg emptyDrone) (objectOf optionsArg emptyOptions))"
  by (cases P) (auto simp: calculateStripsCall_def isPolygon_def)

lemma emptyDrone_unusable: "unusable (focalLength_mm emptyDrone)"
  by (simp add: emptyDrone_def unusable_def)

lemma ringError_openSquare:
  "libraryError gridTurf openSquare D opts =
     Some (Error ''First and last Position are not equivalent.'')"
  by (simp add: libraryError_def gridTurf_simps openSquare_def)

section \<open>The options are read through their resolved values\<close>
















section \<open>What one segment, one strip and the whole loop do\<close>

lemma fold_sampleStep:
  "fold (sampleStep T g D opts seg asc) ss (pts, n) =
     (pts @ mkPhotos asc n (keptSamples T g D opts seg ss),
      n + length (keptSamples T g D opts seg ss))"
proof (induction ss arbitrary: pts n)
  case Nil
  then show ?case by (simp add: keptSamples_def)
next
  case (Cons s ss)
  show ?case
  proof (cases "turf_booleanPointInPolygon T (samplePoint T g D opts seg s) (poly T g)")
    case True
    then have "sampleStep T g D opts seg asc s (pts, n) =
        (pts @ [\<lparr>lat = snd (samplePoint T g D opts seg s), lng = fst (samplePoint T g D opts seg s),
                  stripIndex = asc, pointIndex = n\<rparr>], Suc n)"
      by (simp add: sampleStep_def Let_def)
    then show ?thesis using True Cons.IH by (simp add: keptSamples_def)
  next
    case False
    then have "sampleStep T g D opts seg asc s (pts, n) = (pts, n)"
      by (simp add: sampleStep_def Let_def)
    then show ?thesis using False Cons.IH by (simp add: keptSamples_def)
  qed
qed

lemma segmentCallback_rejected:
  "\<not> accepted T g opts seg \<Longrightarrow> segmentCallback T g D opts i seg acc = Some acc"
  by (simp add: segmentCallback_def accepted_def Let_def)

lemma segmentCallback_accepted:
  assumes "accepted T g opts seg"
  shows "segmentCallback T g D opts i seg (st, k) =
     (let st2 = st\<lparr>ls_stripLines := ls_stripLines st @
                      [newStripLine T g opts i (length (ls_stripLines st)) seg],
                    totalStripLengthKm := totalStripLengthKm st + turf_length T seg\<rparr>
      in if js_lt (Fin (turf_length T seg * 1000)) (minSegmentLength opts)
         then Some (st2, Suc k)
         else (case js_floor (js_div (Fin (turf_length T seg * 1000)) (photoSpacing D opts)) of
                 Fin c \<Rightarrow>
                   Some (st2\<lparr>ls_photoPoints := ls_photoPoints st @
                          mkPhotos (actualStripCount st) 0
                            (keptSamples T g D opts seg [0..<nat (\<lfloor>c\<rfloor> + 1)])\<rparr>, Suc k)
               | PInf \<Rightarrow> None
               | _ \<Rightarrow> Some (st2, Suc k)))"
  using assms
  by (simp add: segmentCallback_def accepted_def Let_def sampleLoop_cases fold_sampleStep
      newStripLine_def split: jsnum.splits)

lemma segmentCallback_SomeE:
  assumes "segmentCallback T g D opts i seg (st, k) = Some (st', k')"
  shows "(\<not> accepted T g opts seg \<and> st' = st \<and> k' = k)
       \<or> (accepted T g opts seg \<and> k' = Suc k
          \<and> ls_stripLines st' = ls_stripLines st @
                [newStripLine T g opts i (length (ls_stripLines st)) seg]
          \<and> totalStripLengthKm st' = totalStripLengthKm st + turf_length T seg
          \<and> actualStripCount st' = actualStripCount st
          \<and> (\<exists>ss. ls_photoPoints st' = ls_photoPoints st @
                mkPhotos (actualStripCount st) 0 (keptSamples T g D opts seg ss)))"
proof (cases "accepted T g opts seg")
  case False
  then show ?thesis using assms by (simp add: segmentCallback_rejected)
next
  case True
  have k0: "keptSamples T g D opts seg [] = []" by (simp add: keptSamples_def)
  show ?thesis
    using assms True k0
    unfolding segmentCallback_accepted [OF True] Let_def
    by (auto split: if_splits jsnum.splits intro: exI [of _ "[]"])
qed

lemma forEach_invariant:
  assumes "forEach f xs st = Some st'" and "P st"
    and "\<And>x s s'. x \<in> set xs \<Longrightarrow> P s \<Longrightarrow> f x s = Some s' \<Longrightarrow> P s'"
  shows "P st'"
  using assms
proof (induction xs arbitrary: st)
  case Nil
  then show ?case by simp
next
  case (Cons x xs)
  from Cons.prems(1) obtain s1 where s1: "f x st = Some s1" "forEach f xs s1 = Some st'"
    by (auto simp: bind_eq_Some_conv)
  have p1: "P s1" using Cons.prems(3) [of x st s1] Cons.prems(2) s1 by simp
  show ?case
  proof (rule Cons.IH [OF s1(2) p1])
    fix y s s' assume "y \<in> set xs" "P s" "f y s = Some s'"
    then show "P s'" using Cons.prems(3) [of y s s'] by simp
  qed
qed

lemma stripBody_SomeE:
  assumes "stripBody T g D opts i st = Some st'"
  obtains st1 k where
    "forEach (segmentCallback T g D opts i)
       (turf_lineSplit T (scanLine T g D opts i) (rotatedPoly T g opts)) (st, 0) = Some (st1, k)"
    "st' = (if 0 < k then st1\<lparr>actualStripCount := actualStripCount st1 + 1\<rparr> else st1)"
  using assms by (auto simp: stripBody_def Let_def)

lemma calculateStrips_InrE:
  assumes "calculateStrips T P D opts = Some (Inr r)"
  obtains g st where "P = Some g" "isPolygon P"
    "forEach (stripBody T g D opts) [0..<candidateStrips (numStrips T g D opts)] initialState
       = Some st"
    "r = summarise T g st"
  using assms
  by (cases P)
     (auto simp: calculateStrips_def stripLoop_cases candidateStrips_def isPolygon_def
        split: if_splits jsnum.splits option.splits)

lemma mkPhotos_set:
  "p \<in> set (mkPhotos asc n qs) \<Longrightarrow> (lng p, lat p) \<in> set qs \<and> stripIndex p = asc"
  by (induction qs arbitrary: n) auto

lemma keptSamples_set:
  "q \<in> set (keptSamples T g D opts seg ss) \<Longrightarrow>
     turf_booleanPointInPolygon T q (poly T g) \<and> (\<exists>s\<in>set ss. q = samplePoint T g D opts seg s)"
  by (auto simp: keptSamples_def)

lemma summarise_simps:
  "photoPoints (summarise T g st) = ls_photoPoints st"
  "stripLines (summarise T g st) = ls_stripLines st"
  "numPhotos (summaryStats (summarise T g st)) = length (ls_photoPoints st)"
  "sum_numStrips (summaryStats (summarise T g st)) = actualStripCount st"
  "totalLengthKm (summaryStats (summarise T g st)) = toFixed2 (totalStripLengthKm st)"
  "estTimeMin (summaryStats (summarise T g st)) = \<lceil>estFlightTimeMin (totalStripLengthKm st)\<rceil>"
  by (simp_all add: summarise_def Let_def)

lemma segmentCallback_photoOK:
  assumes "segmentCallback T g D opts i seg (st, k) = Some (st', k')"
    and "seg \<in> set (turf_lineSplit T (scanLine T g D opts i) (rotatedPoly T g opts))"
    and "\<forall>p\<in>set (ls_photoPoints st). photoOK T g D opts p"
  shows "\<forall>p\<in>set (ls_photoPoints st'). photoOK T g D opts p"
  using segmentCallback_SomeE [OF assms(1)]
proof (elim disjE conjE exE)
  assume "st' = st"
  then show ?thesis using assms(3) by simp
next
  fix ss
  assume acc: "accepted T g opts seg"
    and pts: "ls_photoPoints st' = ls_photoPoints st @
                mkPhotos (actualStripCount st) 0 (keptSamples T g D opts seg ss)"
  have mem: "seg \<in> set (acceptedSegments T g D opts i)"
    using acc assms(2) by (simp add: acceptedSegments_def)
  show ?thesis
  proof
    fix p assume "p \<in> set (ls_photoPoints st')"
    then consider "p \<in> set (ls_photoPoints st)"
      | "p \<in> set (mkPhotos (actualStripCount st) 0 (keptSamples T g D opts seg ss))"
      using pts by auto
    then show "photoOK T g D opts p"
    proof cases
      case 1
      then show ?thesis using assms(3) by simp
    next
      case 2
      then have "(lng p, lat p) \<in> set (keptSamples T g D opts seg ss)"
        using mkPhotos_set by blast
      then show ?thesis
        using keptSamples_set [of "(lng p, lat p)" T g D opts seg ss] mem
        unfolding photoOK_def by blast
    qed
  qed
qed

lemma stripBody_photoOK:
  assumes "stripBody T g D opts i st = Some st'"
    and "\<forall>p\<in>set (ls_photoPoints st). photoOK T g D opts p"
  shows "\<forall>p\<in>set (ls_photoPoints st'). photoOK T g D opts p"
proof -
  from assms(1) obtain st1 k where
    fe: "forEach (segmentCallback T g D opts i)
       (turf_lineSplit T (scanLine T g D opts i) (rotatedPoly T g opts)) (st, 0) = Some (st1, k)"
    and st': "st' = (if 0 < k then st1\<lparr>actualStripCount := actualStripCount st1 + 1\<rparr> else st1)"
    by (rule stripBody_SomeE)
  have "\<forall>p\<in>set (ls_photoPoints (fst (st1, k))). photoOK T g D opts p"
  proof (rule forEach_invariant
      [OF fe, where P = "\<lambda>a. \<forall>p\<in>set (ls_photoPoints (fst a)). photoOK T g D opts p"])
    show "\<forall>p\<in>set (ls_photoPoints (fst (st, 0::nat))). photoOK T g D opts p"
      using assms(2) by simp
  next
    fix x s s'
    assume "x \<in> set (turf_lineSplit T (scanLine T g D opts i) (rotatedPoly T g opts))"
      "\<forall>p\<in>set (ls_photoPoints (fst s)). photoOK T g D opts p"
      "segmentCallback T g D opts i x s = Some s'"
    then show "\<forall>p\<in>set (ls_photoPoints (fst s')). photoOK T g D opts p"
      using segmentCallback_photoOK [of T g D opts i x "fst s" "snd s" "fst s'" "snd s'"]
      by simp
  qed
  then show ?thesis using st' by simp
qed

lemma calculateStrips_photoOK:
  assumes "calculateStrips T (Some g) D opts = Some (Inr r)"
  shows "\<forall>p\<in>set (photoPoints r). photoOK T g D opts p"
proof -
  from assms obtain g' st where g': "Some g = Some g'"
    and fe: "forEach (stripBody T g' D opts) [0..<candidateStrips (numStrips T g' D opts)]
               initialState = Some st"
    and r: "r = summarise T g' st"
    by (rule calculateStrips_InrE)
  have "\<forall>p\<in>set (ls_photoPoints st). photoOK T g' D opts p"
  proof (rule forEach_invariant
      [OF fe, where P = "\<lambda>s. \<forall>p\<in>set (ls_photoPoints s). photoOK T g' D opts p"])
    show "\<forall>p\<in>set (ls_photoPoints initialState). photoOK T g' D opts p"
      by (simp add: initialState_def)
  next
    fix x s s'
    assume "\<forall>p\<in>set (ls_photoPoints s). photoOK T g' D opts p"
      "stripBody T g' D opts x s = Some s'"
    then show "\<forall>p\<in>set (ls_photoPoints s'). photoOK T g' D opts p"
      using stripBody_photoOK by blast
  qed
  then show ?thesis using g' r by (simp add: summarise_simps)
qed

lemma forEach_segments_count:
  assumes "forEach (segmentCallback T g D opts i) segs (st, k) = Some (st', k')"
  shows "k' = k + length (filter (accepted T g opts) segs)
       \<and> actualStripCount st' = actualStripCount st"
  using assms
proof (induction segs arbitrary: st k)
  case Nil
  then show ?case by simp
next
  case (Cons seg segs)
  from Cons.prems obtain st1 k1 where
    s1: "segmentCallback T g D opts i seg (st, k) = Some (st1, k1)"
    and s2: "forEach (segmentCallback T g D opts i) segs (st1, k1) = Some (st', k')"
    by (auto simp: bind_eq_Some_conv)
  from segmentCallback_SomeE [OF s1]
  have "k1 = k + (if accepted T g opts seg then 1 else 0)
      \<and> actualStripCount st1 = actualStripCount st"
    by auto
  then show ?case using Cons.IH [OF s2] by simp
qed

lemma stripBody_count:
  assumes "stripBody T g D opts i st = Some st'"
  shows "actualStripCount st' =
     actualStripCount st + (if acceptedSegments T g D opts i \<noteq> [] then 1 else 0)"
proof -
  from assms obtain st1 k where
    fe: "forEach (segmentCallback T g D opts i)
       (turf_lineSplit T (scanLine T g D opts i) (rotatedPoly T g opts)) (st, 0) = Some (st1, k)"
    and st': "st' = (if 0 < k then st1\<lparr>actualStripCount := actualStripCount st1 + 1\<rparr> else st1)"
    by (rule stripBody_SomeE)
  from forEach_segments_count [OF fe]
  have "k = length (acceptedSegments T g D opts i)" "actualStripCount st1 = actualStripCount st"
    by (simp_all add: acceptedSegments_def)
  then show ?thesis using st' by simp
qed

lemma forEach_strips_count:
  assumes "forEach (stripBody T g D opts) is st = Some st'"
  shows "actualStripCount st' =
     actualStripCount st + length (filter (\<lambda>i. acceptedSegments T g D opts i \<noteq> []) is)"
  using assms
proof (induction "is" arbitrary: st)
  case Nil
  then show ?case by simp
next
  case (Cons i "is")
  from Cons.prems obtain st1 where
    s1: "stripBody T g D opts i st = Some st1"
    and s2: "forEach (stripBody T g D opts) is st1 = Some st'"
    by (auto simp: bind_eq_Some_conv)
  show ?case using Cons.IH [OF s2] stripBody_count [OF s1] by simp
qed

lemma segmentCallback_stripIndex:
  assumes "segmentCallback T g D opts i seg (st, k) = Some (st', k')"
    and "\<forall>p\<in>set (ls_photoPoints st). stripIndex p < actualStripCount st + (if 0 < k then 1 else 0)"
  shows "\<forall>p\<in>set (ls_photoPoints st').
           stripIndex p < actualStripCount st' + (if 0 < k' then 1 else 0)"
  using segmentCallback_SomeE [OF assms(1)]
proof (elim disjE conjE exE)
  assume "st' = st" "k' = k"
  then show ?thesis using assms(2) by simp
next
  fix ss
  assume k': "k' = Suc k" and a: "actualStripCount st' = actualStripCount st"
    and pts: "ls_photoPoints st' = ls_photoPoints st @
                mkPhotos (actualStripCount st) 0 (keptSamples T g D opts seg ss)"
  show ?thesis
  proof
    fix p assume "p \<in> set (ls_photoPoints st')"
    then consider "p \<in> set (ls_photoPoints st)"
      | "p \<in> set (mkPhotos (actualStripCount st) 0 (keptSamples T g D opts seg ss))"
      using pts by auto
    then show "stripIndex p < actualStripCount st' + (if 0 < k' then 1 else 0)"
    proof cases
      case 1
      then have "stripIndex p < actualStripCount st + (if 0 < k then 1 else 0)"
        using assms(2) by simp
      then show ?thesis using k' a by (simp split: if_splits)
    next
      case 2
      then have "stripIndex p = actualStripCount st" using mkPhotos_set by blast
      then show ?thesis using k' a by simp
    qed
  qed
qed

lemma stripBody_stripIndex:
  assumes "stripBody T g D opts i st = Some st'"
    and "\<forall>p\<in>set (ls_photoPoints st). stripIndex p < actualStripCount st"
  shows "\<forall>p\<in>set (ls_photoPoints st'). stripIndex p < actualStripCount st'"
proof -
  from assms(1) obtain st1 k where
    fe: "forEach (segmentCallback T g D opts i)
       (turf_lineSplit T (scanLine T g D opts i) (rotatedPoly T g opts)) (st, 0) = Some (st1, k)"
    and st': "st' = (if 0 < k then st1\<lparr>actualStripCount := actualStripCount st1 + 1\<rparr> else st1)"
    by (rule stripBody_SomeE)
  let ?P = "\<lambda>a. \<forall>p\<in>set (ls_photoPoints (fst a)).
              stripIndex p < actualStripCount (fst a) + (if 0 < snd a then 1 else 0)"
  have "?P (st1, k)"
  proof (rule forEach_invariant [OF fe, where P = ?P])
    show "?P (st, 0::nat)" using assms(2) by simp
  next
    fix x s s'
    assume "?P s" "segmentCallback T g D opts i x s = Some s'"
    then show "?P s'"
      using segmentCallback_stripIndex [of T g D opts i x "fst s" "snd s" "fst s'" "snd s'"]
      by simp
  qed
  then show ?thesis using st' by (simp split: if_splits)
qed

lemma forEach_strips_stripIndex:
  assumes "forEach (stripBody T g D opts) is st = Some st'"
    and "\<forall>p\<in>set (ls_photoPoints st). stripIndex p < actualStripCount st"
  shows "\<forall>p\<in>set (ls_photoPoints st'). stripIndex p < actualStripCount st'"
  by (rule forEach_invariant [OF assms(1),
        where P = "\<lambda>s. \<forall>p\<in>set (ls_photoPoints s). stripIndex p < actualStripCount s"])
     (use assms(2) stripBody_stripIndex in blast)+

lemma segmentCallback_lineOK:
  assumes "segmentCallback T g D opts i seg (st, k) = Some (st', k')"
    and "seg \<in> set (turf_lineSplit T (scanLine T g D opts i) (rotatedPoly T g opts))"
    and "i < m"
    and "\<forall>j<length (ls_stripLines st). lineOK T g D opts m (ls_stripLines st) j"
  shows "\<forall>j<length (ls_stripLines st'). lineOK T g D opts m (ls_stripLines st') j"
  using segmentCallback_SomeE [OF assms(1)]
proof (elim disjE conjE exE)
  assume "st' = st"
  then show ?thesis using assms(4) by simp
next
  assume acc: "accepted T g opts seg"
    and sls: "ls_stripLines st' = ls_stripLines st @
                [newStripLine T g opts i (length (ls_stripLines st)) seg]"
  have mem: "seg \<in> set (acceptedSegments T g D opts i)"
    using acc assms(2) by (simp add: acceptedSegments_def)
  show ?thesis
  proof (intro allI impI)
    fix j assume "j < length (ls_stripLines st')"
    then consider "j < length (ls_stripLines st)" | "j = length (ls_stripLines st)"
      using sls by fastforce
    then show "lineOK T g D opts m (ls_stripLines st') j"
    proof cases
      case 1
      then show ?thesis using assms(4) sls by (simp add: lineOK_def nth_append)
    next
      case 2
      then have "ls_stripLines st' ! j = newStripLine T g opts i j seg"
        using sls by simp
      then show ?thesis using mem assms(3) unfolding lineOK_def by blast
    qed
  qed
qed

lemma stripBody_lineOK:
  assumes "stripBody T g D opts i st = Some st'" and "i < m"
    and "\<forall>j<length (ls_stripLines st). lineOK T g D opts m (ls_stripLines st) j"
  shows "\<forall>j<length (ls_stripLines st'). lineOK T g D opts m (ls_stripLines st') j"
proof -
  from assms(1) obtain st1 k where
    fe: "forEach (segmentCallback T g D opts i)
       (turf_lineSplit T (scanLine T g D opts i) (rotatedPoly T g opts)) (st, 0) = Some (st1, k)"
    and st': "st' = (if 0 < k then st1\<lparr>actualStripCount := actualStripCount st1 + 1\<rparr> else st1)"
    by (rule stripBody_SomeE)
  let ?P = "\<lambda>a. \<forall>j<length (ls_stripLines (fst a)). lineOK T g D opts m (ls_stripLines (fst a)) j"
  have "?P (st1, k)"
  proof (rule forEach_invariant [OF fe, where P = ?P])
    show "?P (st, 0::nat)" using assms(3) by simp
  next
    fix x s s'
    assume "x \<in> set (turf_lineSplit T (scanLine T g D opts i) (rotatedPoly T g opts))"
      "?P s" "segmentCallback T g D opts i x s = Some s'"
    then show "?P s'"
      using segmentCallback_lineOK [of T g D opts i x "fst s" "snd s" "fst s'" "snd s'" m]
        assms(2)
      by simp
  qed
  then show ?thesis using st' by simp
qed

lemma calculateStrips_lineOK:
  assumes "calculateStrips T (Some g) D opts = Some (Inr r)"
  shows "\<forall>j<length (stripLines r).
           lineOK T g D opts (candidateStrips (numStrips T g D opts)) (stripLines r) j"
proof -
  from assms obtain g' st where g': "Some g = Some g'"
    and fe: "forEach (stripBody T g' D opts) [0..<candidateStrips (numStrips T g' D opts)]
               initialState = Some st"
    and r: "r = summarise T g' st"
    by (rule calculateStrips_InrE)
  let ?m = "candidateStrips (numStrips T g' D opts)"
  let ?P = "\<lambda>s. \<forall>j<length (ls_stripLines s). lineOK T g' D opts ?m (ls_stripLines s) j"
  have "?P st"
  proof (rule forEach_invariant [OF fe, where P = ?P])
    show "?P initialState" by (simp add: initialState_def)
  next
    fix x s s'
    assume "x \<in> set [0..<?m]" "?P s" "stripBody T g' D opts x s = Some s'"
    then show "?P s'"
      using stripBody_lineOK [of T g' D opts x s s' ?m] by simp
  qed
  then show ?thesis using g' r by (simp add: summarise_simps)
qed

lemma calculateStrips_counts:
  assumes "calculateStrips T (Some g) D opts = Some (Inr r)"
  shows "numPhotos (summaryStats r) = length (photoPoints r)"
    "sum_numStrips (summaryStats r) =
       length (filter (\<lambda>i. acceptedSegments T g D opts i \<noteq> [])
                 [0..<candidateStrips (numStrips T g D opts)])"
    "\<forall>p\<in>set (photoPoints r). stripIndex p < sum_numStrips (summaryStats r)"
proof -
  from assms obtain g' st where g': "Some g = Some g'"
    and fe: "forEach (stripBody T g' D opts) [0..<candidateStrips (numStrips T g' D opts)]
               initialState = Some st"
    and r: "r = summarise T g' st"
    by (rule calculateStrips_InrE)
  show "numPhotos (summaryStats r) = length (photoPoints r)"
    using r by (simp add: summarise_simps)
  show "sum_numStrips (summaryStats r) =
       length (filter (\<lambda>i. acceptedSegments T g D opts i \<noteq> [])
                 [0..<candidateStrips (numStrips T g D opts)])"
    using forEach_strips_count [OF fe] g' r by (simp add: summarise_simps initialState_def)
  show "\<forall>p\<in>set (photoPoints r). stripIndex p < sum_numStrips (summaryStats r)"
    using forEach_strips_stripIndex [OF fe] r by (simp add: summarise_simps initialState_def)
qed


section \<open>Termination of a call\<close>

lemma segmentCallback_returns:
  assumes "photoSpacing D opts = Fin ps" "ps \<noteq> 0"
  shows "\<exists>r. segmentCallback T g D opts i seg acc = Some r"
proof (cases "accepted T g opts seg")
  case False
  then show ?thesis by (simp add: segmentCallback_rejected)
next
  case True
  show ?thesis
    using assms segmentCallback_accepted [OF True, of D i "fst acc" "snd acc"]
    by (simp add: Let_def)
qed

lemma forEach_returns:
  assumes "\<And>x s. \<exists>s'. f x s = Some s'"
  shows "\<exists>s'. forEach f xs st = Some s'"
proof (induction xs arbitrary: st)
  case Nil
  then show ?case by simp
next
  case (Cons x xs)
  from assms [of x st] obtain s1 where "f x st = Some s1" by blast
  then show ?case using Cons.IH [of s1] by simp
qed

lemma stripBody_returns:
  assumes "photoSpacing D opts = Fin ps" "ps \<noteq> 0"
  shows "\<exists>s'. stripBody T g D opts i st = Some s'"
proof -
  have "\<exists>s'. forEach (segmentCallback T g D opts i)
          (turf_lineSplit T (scanLine T g D opts i) (rotatedPoly T g opts)) (st, 0) = Some s'"
    by (rule forEach_returns) (rule segmentCallback_returns [OF assms])
  then show ?thesis by (auto simp: stripBody_def Let_def)
qed

lemma calculateStrips_returns:
  assumes "isPolygon (Some g)" and "footprintOK D opts" and "libraryError T g D opts = None"
    and "photoSpacing D opts = Fin ps" "ps \<noteq> 0"
    and "numStrips T g D opts \<noteq> PInf"
  shows "returns (calculateStrips T (Some g) D opts)"
proof -
  have "\<exists>s'. forEach (stripBody T g D opts) xs st = Some s'" for xs st
    by (rule forEach_returns) (rule stripBody_returns [OF assms(4,5)])
  then have "\<exists>s'. stripLoop T g D opts (numStrips T g D opts) 0 initialState = Some s'"
    using assms(6) by (simp add: stripLoop_cases split: jsnum.splits)
  then show ?thesis
    unfolding calculateStrips_checked [OF assms(1,2)] returns_def assms(3) by auto
qed

lemma numStrips_Fin:
  assumes "stripSpacing D opts = Fin p" "p \<noteq> 0"
  shows "numStrips T g D opts = Fin (of_int (max 1 \<lceil>(totalWidth_m T g opts + p) / p\<rceil>))"
  using assms by (simp add: numStrips_def Let_def max_def)

section \<open>More runs on the square\<close>

lemma sq_frame:
  "poly gridTurf square = coordinates square"
  "rotatedPoly gridTurf square opts = coordinates square"
  "centroid gridTurf square = (1 / 20, 1 / 20)"
  "bbox gridTurf square opts = (0, 0, 1 / 10, 1 / 10)"
  by (simp_all add: poly_def rotatedPoly_def centroid_def bbox_def gridTurf_simps square_box)

lemma sq_width:
  "leftPoint gridTurf square opts = (0, 1 / 20)"
  "totalWidth_m gridTurf square opts = 100"
  by (simp_all add: totalWidth_m_def totalWidth_km_def leftPoint_def rightPoint_def
      bboxCenter_def sq_frame gridTurf_simps gridDistance_def)

lemma camera_footprint: "js_truthy (height opts) \<Longrightarrow> footprintOK camera opts"
  by (simp add: footprintOK_def camera_defs camera_def)

lemma square_isPolygon: "isPolygon (Some square)"
  by (simp add: isPolygon_def square_def)

lemma sidelap_variants:
  "stripSpacing camera fullSidelap = Fin 0"
  "stripSpacing camera denseSidelap = Fin (1 / 1000)"
  "stripSpacing camera excessSidelap = Fin (- 50)"
  "photoSpacing camera fullSidelap = Fin 50"
  "photoSpacing camera denseSidelap = Fin 50"
  "photoSpacing camera excessSidelap = Fin 50"
  "footprintOK camera fullSidelap"
  "footprintOK camera denseSidelap"
  "footprintOK camera excessSidelap"
  "footprintX camera fullSidelap = Fin 100"
  "sidelap fullSidelap = Fin 1"
  by (simp_all add: stripSpacing_def photoSpacing_def footprintX_def footprintY_def
      footprintOK_def camera_defs option_defs camera_def flight_def fullSidelap_def
      denseSidelap_def excessSidelap_def)

lemma excess_returns: "returns (calculateStrips gridTurf (Some square) camera excessSidelap)"
  by (rule calculateStrips_returns [OF square_isPolygon sidelap_variants(9)
        square_no_exception sidelap_variants(6)])
     (simp_all add: numStrips_Fin [OF sidelap_variants(3)])

section \<open>The estimated flight time\<close>

text \<open>
  C1. The claim: \<open>estTimeMin\<close> is the ceiling of \<open>totalLengthKm / 0.6\<close>, the minutes at
  the cruise speed of 0.6 km per minute that the comment of the source states. The
  code multiplies the quotient by \<open>60\<close> before rounding up, so the field holds sixty
  times that number. On the square the strips are 0.2 km long in all: the claim gives
  \<open>1\<close> minute, the code returns \<open>20\<close>.
\<close>

theorem C1_estTimeMin_square:
  "map_option (map_sum id (totalLengthKm \<circ> summaryStats))
     (calculateStrips gridTurf (Some square) camera flight) = Some (Inr (1 / 5))
   \<and> map_option (map_sum id (estTimeMin \<circ> summaryStats))
     (calculateStrips gridTurf (Some square) camera flight) = Some (Inr 20)
   \<and> \<lceil>(1 / 5 :: real) / (6 / 10)\<rceil> = (1 :: int)"
proof -
  have "\<lceil>(1 / 5 :: real) / (6 / 10)\<rceil> = (1 :: int)"
    by (rule ceiling_unique) simp_all
  then show ?thesis
    by (simp add: square_run squareResult_def)
qed


text \<open>The value returned on the square is not the one the claim computes from the length.\<close>

theorem C1_estTimeMin_square_witness:
  "map_option (map_sum id (estTimeMin \<circ> summaryStats))
     (calculateStrips gridTurf (Some square) camera flight)
   \<noteq> Some (Inr \<lceil>(1 / 5 :: real) / (6 / 10)\<rceil>)"
  unfolding C1_estTimeMin_square [THEN conjunct2, THEN conjunct1]
    C1_estTimeMin_square [THEN conjunct2, THEN conjunct2]
  by simp


section \<open>Errors and defaults\<close>

text \<open>
  C4, as the code has it. A call fails in these cases, tried in this order, and an
  outcome that is an error carries no result. It throws the polygon error when the
  survey area is missing or its type is not \<^verbatim>\<open>'Polygon'\<close>, whatever the other
  arguments are. Otherwise it throws a \<^verbatim>\<open>TypeError\<close> when the drone, or else the
  options, is \<^verbatim>\<open>null\<close>. Otherwise it throws the missing-parameter error exactly
  when the sensor width in metres, the sensor height in metres, the focal length in
  metres or the height is falsy. Otherwise it throws what the geometry library raises,
  and nothing else. The second check fails whenever the sensor width, the sensor
  height, the pixel size or the focal length is absent or falsy, or the height does
  not parse to a truthy number; so a missing focal length alone raises the
  missing-parameter error, and so does a drone that is left out.
\<close>

theorem C4_error_kinds:
  "(calculateStripsCall T P droneArg optionsArg = Some (Inl e) \<longleftrightarrow>
      (\<not> isPolygon P \<and> e = polygonError)
      \<or> (isPolygon P \<and> droneArg = Null \<and> e = TypeError ''sensorWidth_px'')
      \<or> (isPolygon P \<and> droneArg \<noteq> Null \<and> optionsArg = Null \<and> e = TypeError ''height'')
      \<or> (isPolygon P \<and> droneArg \<noteq> Null \<and> optionsArg \<noteq> Null
          \<and> \<not> footprintOK (objectOf droneArg emptyDrone) (objectOf optionsArg emptyOptions)
          \<and> e = parameterError)
      \<or> (isPolygon P \<and> droneArg \<noteq> Null \<and> optionsArg \<noteq> Null
          \<and> footprintOK (objectOf droneArg emptyDrone) (objectOf optionsArg emptyOptions)
          \<and> (\<exists>g. P = Some g
                \<and> libraryError T g (objectOf droneArg emptyDrone)
                      (objectOf optionsArg emptyOptions) = Some e)))
   \<and> (\<not> isPolygon P \<longrightarrow> calculateStripsCall T P droneArg optionsArg = Some (Inl polygonError))
   \<and> (unusable (sensorWidth_px D) \<or> unusable (sensorHeight_px D)
        \<or> unusable (pixelSize_um D) \<or> unusable (focalLength_mm D)
        \<or> \<not> js_truthy (parseFloat (opt_height opts)) \<longrightarrow> \<not> footprintOK D opts)
   \<and> (isPolygon P \<and> focalLength_mm D = None \<longrightarrow>
        calculateStripsCall T P (Object D) (Object opts) = Some (Inl parameterError))
   \<and> (isPolygon P \<and> optionsArg \<noteq> Null \<longrightarrow>
        calculateStripsCall T P Omitted optionsArg = Some (Inl parameterError))
   \<and> calculateStripsCall T P (Object D) (Object opts) = calculateStrips T P D opts"
proof (intro conjI impI)
  show "calculateStripsCall T P droneArg optionsArg = Some (Inl e) \<longleftrightarrow>
      (\<not> isPolygon P \<and> e = polygonError)
      \<or> (isPolygon P \<and> droneArg = Null \<and> e = TypeError ''sensorWidth_px'')
      \<or> (isPolygon P \<and> droneArg \<noteq> Null \<and> optionsArg = Null \<and> e = TypeError ''height'')
      \<or> (isPolygon P \<and> droneArg \<noteq> Null \<and> optionsArg \<noteq> Null
          \<and> \<not> footprintOK (objectOf droneArg emptyDrone) (objectOf optionsArg emptyOptions)
          \<and> e = parameterError)
      \<or> (isPolygon P \<and> droneArg \<noteq> Null \<and> optionsArg \<noteq> Null
          \<and> footprintOK (objectOf droneArg emptyDrone) (objectOf optionsArg emptyOptions)
          \<and> (\<exists>g. P = Some g
                \<and> libraryError T g (objectOf droneArg emptyDrone)
                      (objectOf optionsArg emptyOptions) = Some e))"
    unfolding calculateStripsCall_cases
    by (auto simp: calculateStrips_error)
next
  assume "\<not> isPolygon P"
  then show "calculateStripsCall T P droneArg optionsArg = Some (Inl polygonError)"
    by (simp add: calculateStripsCall_cases)
next
  assume "unusable (sensorWidth_px D) \<or> unusable (sensorHeight_px D)
        \<or> unusable (pixelSize_um D) \<or> unusable (focalLength_mm D)
        \<or> \<not> js_truthy (parseFloat (opt_height opts))"
  then show "\<not> footprintOK D opts"
    by (rule unusable_footprint)
next
  assume a: "isPolygon P \<and> focalLength_mm D = None"
  then have "unusable (focalLength_mm D)" by (simp add: unusable_def)
  then have "\<not> footprintOK D opts" by (simp add: unusable_footprint)
  then show "calculateStripsCall T P (Object D) (Object opts) = Some (Inl parameterError)"
    using a by (simp add: calculateStripsCall_Object calculateStrips_error)
next
  assume a: "isPolygon P \<and> optionsArg \<noteq> Null"
  have "\<not> footprintOK emptyDrone (objectOf optionsArg emptyOptions)"
    by (simp add: unusable_footprint emptyDrone_unusable)
  then show "calculateStripsCall T P Omitted optionsArg = Some (Inl parameterError)"
    using a by (simp add: calculateStripsCall_cases calculateStrips_error objectOf_def)
next
  show "calculateStripsCall T P (Object D) (Object opts) = calculateStrips T P D opts"
    by (rule calculateStripsCall_Object)
qed

text \<open>
  On the square: the camera without a focal length is rejected, a missing survey area
  is rejected, a drone that is \<^verbatim>\<open>null\<close> raises the \<^verbatim>\<open>TypeError\<close>, the open ring raises
  the error of the library, and the complete input is not rejected for its parameters.
\<close>

theorem C4_error_kinds_witness:
  "calculateStripsCall gridTurf (Some square) (Object (camera\<lparr>focalLength_mm := None\<rparr>))
       (Object flight) = Some (Inl parameterError)
   \<and> calculateStripsCall gridTurf None (Object camera) (Object flight) = Some (Inl polygonError)
   \<and> calculateStripsCall gridTurf (Some square) Null (Object flight)
       = Some (Inl (TypeError ''sensorWidth_px''))
   \<and> calculateStripsCall gridTurf (Some openSquare) (Object camera) (Object flight)
       = Some (Inl (Error ''First and last Position are not equivalent.''))
   \<and> calculateStripsCall gridTurf (Some square) (Object camera) (Object flight)
       \<noteq> Some (Inl parameterError)"
proof -
  have p: "isPolygon (Some square)" "isPolygon (Some openSquare)" "\<not> isPolygon None"
    by (simp_all add: isPolygon_def square_def openSquare_def)
  have f: "footprintOK camera flight"
    by (simp add: camera_footprint camera_ok)
  have n: "Object camera \<noteq> Null" "Object flight \<noteq> Null"
    "objectOf (Object camera) emptyDrone = camera"
    "objectOf (Object flight) emptyOptions = flight"
    by (simp_all add: objectOf_def)
  have "calculateStripsCall gridTurf (Some square) (Object (camera\<lparr>focalLength_mm := None\<rparr>))
       (Object flight) = Some (Inl parameterError)"
    using C4_error_kinds [where T = gridTurf and P = "Some square"
        and D = "camera\<lparr>focalLength_mm := None\<rparr>" and opts = flight,
        THEN conjunct2, THEN conjunct2, THEN conjunct2, THEN conjunct1] p
    by simp
  moreover have "calculateStripsCall gridTurf None (Object camera) (Object flight)
       = Some (Inl polygonError)"
    using C4_error_kinds [where T = gridTurf and P = None and droneArg = "Object camera"
        and optionsArg = "Object flight", THEN conjunct2, THEN conjunct1] p
    by simp
  moreover have "calculateStripsCall gridTurf (Some square) Null (Object flight)
       = Some (Inl (TypeError ''sensorWidth_px''))"
    unfolding C4_error_kinds [where T = gridTurf and P = "Some square" and droneArg = Null
        and optionsArg = "Object flight" and e = "TypeError ''sensorWidth_px''",
        THEN conjunct1]
    using p by simp
  moreover have "calculateStripsCall gridTurf (Some openSquare) (Object camera) (Object flight)
       = Some (Inl (Error ''First and last Position are not equivalent.''))"
    unfolding C4_error_kinds [where T = gridTurf and P = "Some openSquare"
        and droneArg = "Object camera" and optionsArg = "Object flight"
        and e = "Error ''First and last Position are not equivalent.''", THEN conjunct1]
    using p f n by (simp add: ringError_openSquare)
  moreover have "calculateStripsCall gridTurf (Some square) (Object camera) (Object flight)
       \<noteq> Some (Inl parameterError)"
    unfolding C4_error_kinds [where T = gridTurf and P = "Some square"
        and droneArg = "Object camera" and optionsArg = "Object flight"
        and e = parameterError, THEN conjunct1]
    using p f n by (simp add: square_no_exception)
  ultimately show ?thesis by simp
qed

text \<open>
  C4, as the claim states it, fails: there are more than two cases. Over the square
  a drone that is \<^verbatim>\<open>null\<close> makes the call throw a \<^verbatim>\<open>TypeError\<close>. With the ring of
  the square left open, and the complete camera and flight, the call throws the error
  of the library: the survey area is of type \<^verbatim>\<open>'Polygon'\<close> and the second check
  passes. Neither error is the polygon error or the missing-parameter error.
\<close>

theorem C4_other_errors:
  "calculateStripsCall gridTurf (Some square) Null (Object flight)
       = Some (Inl (TypeError ''sensorWidth_px''))
   \<and> calculateStripsCall gridTurf (Some openSquare) (Object camera) (Object flight)
       = Some (Inl (Error ''First and last Position are not equivalent.''))
   \<and> TypeError ''sensorWidth_px'' \<noteq> polygonError
   \<and> TypeError ''sensorWidth_px'' \<noteq> parameterError
   \<and> Error ''First and last Position are not equivalent.'' \<noteq> polygonError
   \<and> Error ''First and last Position are not equivalent.'' \<noteq> parameterError
   \<and> isPolygon (Some square) \<and> isPolygon (Some openSquare)
   \<and> footprintOK camera flight"
proof -
  have p: "isPolygon (Some square)" "isPolygon (Some openSquare)"
    by (simp_all add: isPolygon_def square_def openSquare_def)
  show ?thesis
    by (simp add: calculateStripsCall_cases calculateStrips_error objectOf_def p
        ringError_openSquare camera_footprint camera_ok polygonError_def parameterError_def)
qed





section \<open>Photo points, counts and identifiers of a result\<close>

text \<open>
  C5. Every photo point of a result lies in the original polygon, the one built from
  the coordinates of the survey area and not the rotated one: the point is a sample
  taken along an accepted segment at a multiple of the photo spacing, rotated back
  about the centroid by the flight direction, and it passed the containment test
  against the original polygon. Samples that fail the test are not in the list.
\<close>

theorem C5_photo_points_inside:
  assumes "calculateStrips T (Some g) D opts = Some (Inr r)" and "p \<in> set (photoPoints r)"
  shows "turf_booleanPointInPolygon T (lng p, lat p) (turf_polygon T (coordinates g))
       \<and> (\<exists>i seg s. seg \<in> set (acceptedSegments T g D opts i)
             \<and> (lng p, lat p) =
                 turf_transformRotatePoint T
                   (turf_along T seg
                      (js_div (js_mul (Fin (real s)) (photoSpacing D opts)) (Fin 1000)))
                   (dir opts) (turf_centroid T (turf_polygon T (coordinates g))))"
  using calculateStrips_photoOK [OF assms(1)] assms(2)
  by (simp add: photoOK_def samplePoint_def poly_def centroid_def Let_def)

text \<open>On the square: the last photo point of the result.\<close>

theorem C5_photo_points_inside_witness:
  "calculateStrips gridTurf (Some square) camera flight = Some (Inr squareResult)
   \<and> \<lparr>lat = 1 / 10, lng = 1 / 20, stripIndex = 1, pointIndex = 2\<rparr> \<in> set (photoPoints squareResult)
   \<and> turf_booleanPointInPolygon gridTurf (1 / 20, 1 / 10)
        (turf_polygon gridTurf (coordinates square))"
proof -
  have m: "\<lparr>lat = 1 / 10, lng = 1 / 20, stripIndex = 1, pointIndex = 2\<rparr>
             \<in> set (photoPoints squareResult)"
    by (simp add: squareResult_def)
  from C5_photo_points_inside [OF square_run m] square_run m show ?thesis
    by simp
qed

text \<open>
  C6. In a result, \<open>numPhotos\<close> is the length of \<open>photoPoints\<close>, and \<open>numStrips\<close> of
  the summary is the number of candidate strips with at least one accepted segment.
  A candidate without accepted segments takes no logical index: every strip index
  carried by a photo point is below \<open>numStrips\<close>.
\<close>

theorem C6_summary_counts:
  assumes "calculateStrips T (Some g) D opts = Some (Inr r)"
  shows "numPhotos (summaryStats r) = length (photoPoints r)
       \<and> sum_numStrips (summaryStats r) =
           length (filter (\<lambda>i. acceptedSegments T g D opts i \<noteq> [])
                     [0..<candidateStrips (numStrips T g D opts)])
       \<and> (\<forall>p\<in>set (photoPoints r). stripIndex p < sum_numStrips (summaryStats r))"
  using calculateStrips_counts [OF assms] by simp

text \<open>
  On the square: three candidate strips, the first without a segment, two strips
  counted, six photo points.
\<close>

theorem C6_summary_counts_witness:
  "calculateStrips gridTurf (Some square) camera flight = Some (Inr squareResult)
   \<and> length (photoPoints squareResult) = 6
   \<and> numPhotos (summaryStats squareResult) = 6
   \<and> candidateStrips (numStrips gridTurf square camera flight) = 3
   \<and> acceptedSegments gridTurf square camera flight 0 = []
   \<and> length (filter (\<lambda>i. acceptedSegments gridTurf square camera flight i \<noteq> []) [0..<3]) = 2
   \<and> sum_numStrips (summaryStats squareResult) = 2"
proof -
  have v: "length (photoPoints squareResult) = 6" "sum_numStrips (summaryStats squareResult) = 2"
    by (simp_all add: squareResult_def)
  from C6_summary_counts [OF square_run] v square_run show ?thesis
    by (simp add: square_candidates square_accepted)
qed

text \<open>
  C2, as the code has it. The strip line at position \<open>j\<close> of the output has the id
  \<open>i-j\<close>: \<open>i\<close> is the index of the candidate strip whose accepted segment it is, and
  the second part is the number of strip lines emitted before it over all strips,
  that is its position in the output. Its coordinates are those of the segment rotated
  back about the centroid.
\<close>

theorem C2_strip_line_ids:
  assumes "calculateStrips T (Some g) D opts = Some (Inr r)" and "j < length (stripLines r)"
  shows "\<exists>i seg. i < candidateStrips (numStrips T g D opts)
           \<and> seg \<in> set (acceptedSegments T g D opts i)
           \<and> sl_id (stripLines r ! j) = show_nat i @ ''-'' @ show_nat j
           \<and> sl_coordinates (stripLines r ! j) =
               line_coords (turf_transformRotateLine T seg (dir opts)
                 (turf_centroid T (turf_polygon T (coordinates g))))"
proof -
  from calculateStrips_lineOK [OF assms(1)] assms(2)
  have "lineOK T g D opts (candidateStrips (numStrips T g D opts)) (stripLines r) j"
    by simp
  then show ?thesis
    unfolding lineOK_def newStripLine_def centroid_def poly_def by fastforce
qed

text \<open>On the square: the second strip line.\<close>

theorem C2_strip_line_ids_witness:
  "calculateStrips gridTurf (Some square) camera flight = Some (Inr squareResult)
   \<and> length (stripLines squareResult) = 2
   \<and> (\<exists>i seg. i < 3 \<and> seg \<in> set (acceptedSegments gridTurf square camera flight i)
         \<and> ''2-1'' = show_nat i @ ''-'' @ show_nat 1
         \<and> [(1 / 20, 0), (1 / 20, 1 / 10)] =
             line_coords (turf_transformRotateLine gridTurf seg (dir flight)
               (turf_centroid gridTurf (turf_polygon gridTurf (coordinates square)))))"
proof -
  have l: "length (stripLines squareResult) = 2" "(1::nat) < length (stripLines squareResult)"
    by (simp_all add: squareResult_def)
  have e: "sl_id (stripLines squareResult ! 1) = ''2-1''"
    "sl_coordinates (stripLines squareResult ! 1) = [(1 / 20, 0), (1 / 20, 1 / 10)]"
    by (simp_all add: squareResult_def)
  from C2_strip_line_ids [OF square_run l(2)] show ?thesis
    unfolding e square_candidates using square_run l(1) by simp
qed

text \<open>
  C2, as the claim states it, fails: the second part of the id does not restart at
  \<open>0\<close> with each strip. On the square the candidate strips \<open>1\<close> and \<open>2\<close> have one
  accepted segment each; the first segment of strip \<open>2\<close> gets the id \<open>2-1\<close>, not
  \<open>2-0\<close>.
\<close>

theorem C2_second_part_runs_on:
  "calculateStrips gridTurf (Some square) camera flight = Some (Inr squareResult)
   \<and> map sl_id (stripLines squareResult) = [''1-0'', ''2-1'']
   \<and> length (acceptedSegments gridTurf square camera flight 0) = 0
   \<and> length (acceptedSegments gridTurf square camera flight 1) = 1
   \<and> length (acceptedSegments gridTurf square camera flight 2) = 1"
  by (simp add: square_run squareResult_def square_accepted)



section \<open>Sampling one segment\<close>




section \<open>The number of candidate strips\<close>

text \<open>
  C3, as the code has it. \<^verbatim>\<open>calculateStrips\<close> has no check on the number of
  candidate strips: once the polygon and parameter checks pass, the only errors it
  throws are those that the geometry library raises. With a positive footprint width,
  a side overlap of \<open>1\<close> and a positive span, the strip spacing is \<open>0\<close> and the number
  of candidate strips is \<open>Infinity\<close>; the call then never returns, unless the library
  raises an error. When the number of candidate strips is a number \<open>n\<close> up to \<open>2^53\<close>
  (the range in which the loop counter of the source counts exactly), the strip body
  runs for every candidate index below \<open>n\<close>, however large \<open>n\<close> is.
\<close>

theorem C3_no_limit_on_strips:
  assumes "isPolygon (Some g)" and "footprintOK D opts"
  shows "(calculateStrips T (Some g) D opts = Some (Inl e)
            \<longleftrightarrow> libraryError T g D opts = Some e)
       \<and> (footprintX D opts = Fin fx \<and> 0 < fx \<and> sidelap opts = Fin 1
            \<and> 0 < totalWidth_m T g opts \<longrightarrow>
            stripSpacing D opts = Fin 0 \<and> numStrips T g D opts = PInf
            \<and> (libraryError T g D opts = None \<longrightarrow> calculateStrips T (Some g) D opts = None))
       \<and> (numStrips T g D opts = Fin n \<and> n \<le> 2 ^ 53 \<and> libraryError T g D opts = None \<longrightarrow>
            calculateStrips T (Some g) D opts =
              map_option (\<lambda>st. Inr (summarise T g st))
                (forEach (stripBody T g D opts) [0..<nat \<lceil>n\<rceil>] initialState))"
proof (intro conjI impI)
  show "calculateStrips T (Some g) D opts = Some (Inl e)
            \<longleftrightarrow> libraryError T g D opts = Some e"
    using assms by (simp add: calculateStrips_error)
next
  assume a: "footprintX D opts = Fin fx \<and> 0 < fx \<and> sidelap opts = Fin 1
            \<and> 0 < totalWidth_m T g opts"
  then show s: "stripSpacing D opts = Fin 0"
    by (simp add: stripSpacing_def js_sub_def)
  from a s show n: "numStrips T g D opts = PInf"
    by (simp add: numStrips_def Let_def)
  assume "libraryError T g D opts = None"
  then show "calculateStrips T (Some g) D opts = None"
    by (simp add: calculateStrips_checked [OF assms] n stripLoop_PInf)
next
  assume "numStrips T g D opts = Fin n \<and> n \<le> 2 ^ 53 \<and> libraryError T g D opts = None"
  then show "calculateStrips T (Some g) D opts =
              map_option (\<lambda>st. Inr (summarise T g st))
                (forEach (stripBody T g D opts) [0..<nat \<lceil>n\<rceil>] initialState)"
    by (simp add: calculateStrips_checked [OF assms] stripLoop_fin)
qed

text \<open>
  On the square: a side overlap of \<open>1\<close> never returns; the flight has three candidate
  strips, does not throw the polygon error, and its outcome is that of the three rounds.
\<close>

theorem C3_no_limit_on_strips_witness:
  "numStrips gridTurf square camera fullSidelap = PInf
   \<and> calculateStrips gridTurf (Some square) camera fullSidelap = None
   \<and> numStrips gridTurf square camera flight = Fin 3
   \<and> calculateStrips gridTurf (Some square) camera flight \<noteq> Some (Inl polygonError)
   \<and> calculateStrips gridTurf (Some square) camera flight =
       map_option (\<lambda>st. Inr (summarise gridTurf square st))
         (forEach (stripBody gridTurf square camera flight) [0..<3] initialState)"
proof -
  have w: "footprintX camera fullSidelap = Fin 100 \<and> (0::real) < 100
      \<and> sidelap fullSidelap = Fin 1 \<and> 0 < totalWidth_m gridTurf square fullSidelap"
    by (simp add: sidelap_variants sq_width)
  have f: "numStrips gridTurf square camera flight = Fin 3 \<and> (3::real) \<le> 2 ^ 53
      \<and> libraryError gridTurf square camera flight = None"
    by (simp add: square_strips square_no_exception)
  have c: "nat \<lceil>3::real\<rceil> = 3"
    by simp
  note a = C3_no_limit_on_strips [OF square_isPolygon sidelap_variants(7),
      where T = gridTurf and fx = 100]
  note b = C3_no_limit_on_strips [OF square_isPolygon camera_footprint [OF camera_ok(4)],
      where T = gridTurf and n = 3 and e = polygonError]
  from a w have "numStrips gridTurf square camera fullSidelap = PInf" by blast
  moreover from a w have "calculateStrips gridTurf (Some square) camera fullSidelap = None"
    using square_no_exception by blast
  moreover from b have "calculateStrips gridTurf (Some square) camera flight
      \<noteq> Some (Inl polygonError)"
    by (simp add: square_no_exception)
  moreover have "calculateStrips gridTurf (Some square) camera flight =
       map_option (\<lambda>st. Inr (summarise gridTurf square st))
         (forEach (stripBody gridTurf square camera flight) [0..<3] initialState)"
  proof -
    from b [THEN conjunct2, THEN conjunct2] f
    have "calculateStrips gridTurf (Some square) camera flight =
        map_option (\<lambda>st. Inr (summarise gridTurf square st))
          (forEach (stripBody gridTurf square camera flight) [0..<nat \<lceil>3::real\<rceil>] initialState)"
      by blast
    then show ?thesis unfolding c .
  qed
  ultimately show ?thesis using f by blast
qed

text \<open>
  C3, as the claim states it, fails: no configuration is rejected for its number of
  strips. On the square a side overlap of \<open>1\<close> gives infinitely many candidate strips
  and a call that never returns, and a side overlap of \<open>0.99999\<close> gives more than
  100000 candidate strips and a call that returns a result.
\<close>

theorem C3_unbounded_strips_not_rejected:
  "numStrips gridTurf square camera fullSidelap = PInf
   \<and> calculateStrips gridTurf (Some square) camera fullSidelap = None
   \<and> js_lt (Fin 100000) (numStrips gridTurf square camera denseSidelap)
   \<and> returns (calculateStrips gridTurf (Some square) camera denseSidelap)"
proof -
  have 1: "numStrips gridTurf square camera fullSidelap = PInf"
    by (simp add: numStrips_def sidelap_variants sq_width)
  have 2: "calculateStrips gridTurf (Some square) camera fullSidelap = None"
    by (simp add: calculateStrips_checked [OF square_isPolygon sidelap_variants(7)]
        square_no_exception 1 stripLoop_PInf)
  have 3: "numStrips gridTurf square camera denseSidelap = Fin 100001"
    by (simp add: numStrips_Fin [OF sidelap_variants(2)] sq_width)
  have 4: "returns (calculateStrips gridTurf (Some square) camera denseSidelap)"
    by (rule calculateStrips_returns [OF square_isPolygon sidelap_variants(8)
          square_no_exception sidelap_variants(5)]) (simp_all add: 3)
  from 1 2 3 4 show ?thesis by simp
qed

text \<open>
  C7, as the code has it. The strip spacing is the footprint width times
  \<open>1 - sidelap\<close>; the span is the distance that the library measures between the
  midpoints of the left and the right edge of the bounding box of the rotated polygon,
  in metres. For a spacing \<open>p\<close> that is a non-zero number the number of candidate
  strips is the larger of \<open>1\<close> and \<open>\<lceil>(span + p) / p\<rceil>\<close>; for a positive spacing and
  a non-negative span this is \<open>\<lceil>(span + p) / p\<rceil>\<close>, which is then at least \<open>1\<close>. The
  start point lies at the distance \<open>-p\<close> at bearing 90 from the left midpoint, that
  is one spacing to its left, and the first scan line passes through it.
\<close>

theorem C7_candidate_count:
  "stripSpacing D opts = js_mul (footprintX D opts) (js_sub (Fin 1) (sidelap opts))
   \<and> (case turf_bbox T (rotatedPoly T g opts) of (minX, minY, maxX, maxY) \<Rightarrow>
         totalWidth_m T g opts =
           turf_distance T (minX, (minY + maxY) / 2) (maxX, (minY + maxY) / 2) * 1000
         \<and> startPoint T g D opts =
             turf_destination T (minX, (minY + maxY) / 2)
               (js_div (js_neg (stripSpacing D opts)) (Fin 1000)) 90)
   \<and> (stripSpacing D opts = Fin p \<and> p \<noteq> 0 \<longrightarrow>
         numStrips T g D opts = Fin (of_int (max 1 \<lceil>(totalWidth_m T g opts + p) / p\<rceil>)))
   \<and> (stripSpacing D opts = Fin p \<and> 0 < p \<and> 0 \<le> totalWidth_m T g opts \<longrightarrow>
         numStrips T g D opts = Fin (of_int \<lceil>(totalWidth_m T g opts + p) / p\<rceil>)
         \<and> 1 \<le> \<lceil>(totalWidth_m T g opts + p) / p\<rceil>)
   \<and> (stripSpacing D opts = Fin p \<longrightarrow>
         startPoint T g D opts = turf_destination T (leftPoint T g opts) (Fin (- p / 1000)) 90
         \<and> scanLine T g D opts 0 =
             (turf_destination T (turf_destination T (startPoint T g D opts) (Fin 0) 90)
                (Fin 20) 180,
              [turf_destination T (turf_destination T (startPoint T g D opts) (Fin 0) 90)
                 (Fin 20) 0]))"
proof (intro conjI impI)
  show "stripSpacing D opts = js_mul (footprintX D opts) (js_sub (Fin 1) (sidelap opts))"
    by (simp add: stripSpacing_def)
next
  show "case turf_bbox T (rotatedPoly T g opts) of (minX, minY, maxX, maxY) \<Rightarrow>
         totalWidth_m T g opts =
           turf_distance T (minX, (minY + maxY) / 2) (maxX, (minY + maxY) / 2) * 1000
         \<and> startPoint T g D opts =
             turf_destination T (minX, (minY + maxY) / 2)
               (js_div (js_neg (stripSpacing D opts)) (Fin 1000)) 90"
    by (simp add: totalWidth_m_def totalWidth_km_def startPoint_def leftPoint_def
        rightPoint_def bboxCenter_def bbox_def split: prod.splits)
next
  assume "stripSpacing D opts = Fin p \<and> p \<noteq> 0"
  then show "numStrips T g D opts = Fin (of_int (max 1 \<lceil>(totalWidth_m T g opts + p) / p\<rceil>))"
    by (simp add: numStrips_Fin)
next
  assume a: "stripSpacing D opts = Fin p \<and> 0 < p \<and> 0 \<le> totalWidth_m T g opts"
  then have "1 \<le> (totalWidth_m T g opts + p) / p" by simp
  then have c: "1 \<le> \<lceil>(totalWidth_m T g opts + p) / p\<rceil>" by linarith
  then show "numStrips T g D opts = Fin (of_int \<lceil>(totalWidth_m T g opts + p) / p\<rceil>)"
    using a numStrips_Fin [of D opts p T g] by (simp add: max_def)
  show "1 \<le> \<lceil>(totalWidth_m T g opts + p) / p\<rceil>" by (rule c)
next
  assume a: "stripSpacing D opts = Fin p"
  then show "startPoint T g D opts =
      turf_destination T (leftPoint T g opts) (Fin (- p / 1000)) 90"
    by (simp add: startPoint_def)
  from a show "scanLine T g D opts 0 =
             (turf_destination T (turf_destination T (startPoint T g D opts) (Fin 0) 90)
                (Fin 20) 180,
              [turf_destination T (turf_destination T (startPoint T g D opts) (Fin 0) 90)
                 (Fin 20) 0])"
    by (simp add: scanLine_def Let_def)
qed

text \<open>On the square with a spacing of 50 m: three candidate strips, the first 50 m to the left.\<close>

theorem C7_candidate_count_witness:
  "stripSpacing camera flight = Fin 50
   \<and> totalWidth_m gridTurf square flight = 100
   \<and> numStrips gridTurf square camera flight = Fin 3
   \<and> startPoint gridTurf square camera flight = (- 1 / 20, 1 / 20)
   \<and> leftPoint gridTurf square flight = (0, 1 / 20)
   \<and> scanLine gridTurf square camera flight 0 = ((- 1 / 20, - 399 / 20), [(- 1 / 20, 401 / 20)])"
proof -
  have h: "stripSpacing camera flight = Fin 50 \<and> (0::real) < 50
      \<and> 0 \<le> totalWidth_m gridTurf square flight"
    by (simp add: flight_values sq_width)
  have c: "\<lceil>(totalWidth_m gridTurf square flight + 50) / 50\<rceil> = 3"
    by (simp add: sq_width)
  from C7_candidate_count [where D = camera and opts = flight and p = 50 and T = gridTurf
      and g = square] h
  have "numStrips gridTurf square camera flight = Fin 3
      \<and> startPoint gridTurf square camera flight
          = turf_destination gridTurf (leftPoint gridTurf square flight) (Fin (- 50 / 1000)) 90
      \<and> scanLine gridTurf square camera flight 0 =
             (turf_destination gridTurf
                (turf_destination gridTurf (startPoint gridTurf square camera flight) (Fin 0) 90)
                (Fin 20) 180,
              [turf_destination gridTurf
                (turf_destination gridTurf (startPoint gridTurf square camera flight) (Fin 0) 90)
                 (Fin 20) 0])"
    unfolding c by simp
  then show ?thesis
    using h by (simp add: sq_width gridTurf_simps gridDestination_def)
qed

text \<open>
  C7, as the claim states it, fails where the ceiling is below \<open>1\<close>: with a side
  overlap of \<open>1.5\<close> on the square the spacing is \<open>-50\<close>, the ceiling is \<open>-1\<close>, the
  number of candidate strips is raised to \<open>1\<close>, and the call returns.
\<close>

theorem C7_count_raised_to_one:
  "stripSpacing camera excessSidelap = Fin (- 50)
   \<and> totalWidth_m gridTurf square excessSidelap = 100
   \<and> js_ceil (js_div (js_add (Fin (totalWidth_m gridTurf square excessSidelap))
                         (stripSpacing camera excessSidelap))
                 (stripSpacing camera excessSidelap)) = Fin (- 1)
   \<and> numStrips gridTurf square camera excessSidelap = Fin 1
   \<and> returns (calculateStrips gridTurf (Some square) camera excessSidelap)"
  by (simp add: sidelap_variants sq_width numStrips_Fin [OF sidelap_variants(3)] excess_returns)

end
